theory Spec2Isabelle
  imports Main "HOL-Library.Word" "HOL-Library.List_Lexorder" "HOL-Library.Multiset"
begin

unbundle bit_operations_syntax

section \<open>Text, bytes and errors\<close>

text \<open>
  A Python \<open>str\<close> is a sequence of code points, so text is a list of naturals
  (\<open>len\<close> counts code points). Python admits every code point up to U+10FFFF in a
  \<open>str\<close>, lone surrogates (U+D800..U+DFFF) included. \<open>bytes\<close> are lists of
  8-bit words. \<open>ascii\<close> reads a literal of the source.
\<close>

type_synonym pystr = "nat list"
type_synonym byte = "8 word"

definition ascii :: "string \<Rightarrow> pystr" where
  "ascii s = map of_char s"

text \<open>
  Every \<open>raise\<close> of the program and of the library calls it makes is a value:
  \<open>HTTPException status detail\<close> is raised by the handler itself, the others escape
  from \<open>ObjectId\<close>, \<open>bytes.fromhex\<close>, \<open>json.dumps\<close>, \<open>str.encode\<close>, the
  \<open>ImpactAction\<close> constructor and the BSON encoder of \<open>insert_one\<close>.
\<close>

datatype error =
    HTTPException nat pystr
  | InvalidId
  | ValueError
  | TypeError
  | UnicodeEncodeError
  | ValidationError
  | OverflowError

section \<open>\<open>json.dumps\<close>\<close>

text \<open>
  The values \<open>model_dump\<close> puts into the payload dictionary: \<open>None\<close>, \<open>str\<close>,
  \<open>float\<close> (the IEEE 754 bit pattern of the double), \<open>bool\<close> and \<open>datetime\<close>
  (a time stamp). A \<open>dict\<close> is an association list in insertion order.
\<close>

datatype pyval =
    PyNone
  | PyStr pystr
  | PyFloat "64 word"
  | PyBool bool
  | PyDatetime nat

type_synonym pydict = "(pystr \<times> pyval) list"

definition hexdigit :: "nat \<Rightarrow> nat" where
  "hexdigit n = (if n < 10 then 48 + n else 87 + n)"

text \<open>\<open>'{0:04x}'.format(n)\<close>, for \<open>n < 0x10000\<close>.\<close>

definition hex4 :: "nat \<Rightarrow> pystr" where
  "hex4 n = [hexdigit (n div 4096 mod 16), hexdigit (n div 256 mod 16),
             hexdigit (n div 16 mod 16), hexdigit (n mod 16)]"

text \<open>
  \<open>json.encoder.py_encode_basestring_ascii\<close> (\<open>ensure_ascii\<close> is left at its default
  \<open>True\<close>): \<open>ESCAPE_ASCII\<close> matches a backslash, a double quote and everything
  outside \<open>' '..'~'\<close>; a match is replaced through \<open>ESCAPE_DCT\<close>, or by
  \<open>\uXXXX\<close>, or by a surrogate pair of two such escapes.
\<close>

definition ESCAPE_DCT :: "nat \<Rightarrow> pystr option" where
  "ESCAPE_DCT n =
     (if n = 0x5C then Some [0x5C, 0x5C]
      else if n = 0x22 then Some [0x5C, 0x22]
      else if n = 0x08 then Some [0x5C, 0x62]
      else if n = 0x0C then Some [0x5C, 0x66]
      else if n = 0x0A then Some [0x5C, 0x6E]
      else if n = 0x0D then Some [0x5C, 0x72]
      else if n = 0x09 then Some [0x5C, 0x74]
      else None)"

definition replace :: "nat \<Rightarrow> pystr" where
  "replace n =
     (case ESCAPE_DCT n of
        Some s \<Rightarrow> s
      | None \<Rightarrow>
          if n < 0x10000 then [0x5C, 0x75] @ hex4 n
          else
            let n' = n - 0x10000;
                s1 = 0xD800 OR (drop_bit 10 n' AND 0x3FF);
                s2 = 0xDC00 OR (n' AND 0x3FF)
            in [0x5C, 0x75] @ hex4 s1 @ [0x5C, 0x75] @ hex4 s2)"

definition ESCAPE_ASCII :: "nat \<Rightarrow> bool" where
  "ESCAPE_ASCII n \<longleftrightarrow> n = 0x5C \<or> n = 0x22 \<or> \<not> (0x20 \<le> n \<and> n \<le> 0x7E)"

definition escape_char :: "nat \<Rightarrow> pystr" where
  "escape_char n = (if ESCAPE_ASCII n then replace n else [n])"

definition encode_basestring_ascii :: "pystr \<Rightarrow> pystr" where
  "encode_basestring_ascii s = [0x22] @ concat (map escape_char s) @ [0x22]"

text \<open>
  One value of the payload. The text of a \<open>float\<close> is \<open>float.__repr__\<close> (with
  \<open>NaN\<close> and \<open>Infinity\<close> spelled out by \<open>json\<close>); the shortest round-trip decimal
  is not modelled, it is the parameter \<open>float_repr\<close>. A \<open>datetime\<close> is not
  serialisable.
\<close>

fun encode_value :: "(64 word \<Rightarrow> pystr) \<Rightarrow> pyval \<Rightarrow> error + pystr" where
  "encode_value float_repr PyNone = Inr (ascii ''null'')"
| "encode_value float_repr (PyBool b) = Inr (if b then ascii ''true'' else ascii ''false'')"
| "encode_value float_repr (PyStr s) = Inr (encode_basestring_ascii s)"
| "encode_value float_repr (PyFloat q) = Inr (float_repr q)"
| "encode_value float_repr (PyDatetime t) = Inl TypeError"

fun encode_items :: "(64 word \<Rightarrow> pystr) \<Rightarrow> pystr \<Rightarrow> pydict \<Rightarrow> error + pystr list" where
  "encode_items float_repr key_separator [] = Inr []"
| "encode_items float_repr key_separator ((k, v) # items) =
     (case encode_value float_repr v of
        Inl e \<Rightarrow> Inl e
      | Inr t \<Rightarrow>
          (case encode_items float_repr key_separator items of
             Inl e \<Rightarrow> Inl e
           | Inr ts \<Rightarrow> Inr ((encode_basestring_ascii k @ key_separator @ t) # ts)))"

fun join :: "pystr \<Rightarrow> pystr list \<Rightarrow> pystr" where
  "join sep [] = []"
| "join sep [t] = t"
| "join sep (t # u # ts) = t @ sep @ join sep (u # ts)"

text \<open>
  \<open>json.dumps(payload, sort_keys=..., separators=(item_separator, key_separator))\<close> on
  a dictionary with \<open>str\<close> keys: with \<open>sort_keys\<close> the items are sorted (the keys of
  a dictionary are distinct, so the keys alone decide the order, compared code point by
  code point), and the members are joined with no indentation.
\<close>

definition json_dumps ::
  "(64 word \<Rightarrow> pystr) \<Rightarrow> bool \<Rightarrow> pystr \<times> pystr \<Rightarrow> pydict \<Rightarrow> error + pystr" where
  "json_dumps float_repr sort_keys separators payload =
     (case separators of (item_separator, key_separator) \<Rightarrow>
        (let items = (if sort_keys then sort_key fst payload else payload)
         in (case encode_items float_repr key_separator items of
               Inl e \<Rightarrow> Inl e
             | Inr ts \<Rightarrow> Inr (ascii ''{'' @ join item_separator ts @ ascii ''}''))))"

section \<open>\<open>str.encode("utf-8")\<close>\<close>

text \<open>The strict UTF-8 codec: a surrogate code point raises \<open>UnicodeEncodeError\<close>.\<close>

definition utf8_char :: "nat \<Rightarrow> error + byte list" where
  "utf8_char n =
     (if n < 0x80 then Inr [of_nat n]
      else if n < 0x800 then Inr [of_nat (0xC0 + n div 64), of_nat (0x80 + n mod 64)]
      else if 0xD800 \<le> n \<and> n \<le> 0xDFFF then Inl UnicodeEncodeError
      else if n < 0x10000 then
        Inr [of_nat (0xE0 + n div 4096), of_nat (0x80 + n div 64 mod 64), of_nat (0x80 + n mod 64)]
      else
        Inr [of_nat (0xF0 + n div 262144), of_nat (0x80 + n div 4096 mod 64),
             of_nat (0x80 + n div 64 mod 64), of_nat (0x80 + n mod 64)])"

fun encode_utf8 :: "pystr \<Rightarrow> error + byte list" where
  "encode_utf8 [] = Inr []"
| "encode_utf8 (c # cs) =
     (case utf8_char c of
        Inl e \<Rightarrow> Inl e
      | Inr bs \<Rightarrow> (case encode_utf8 cs of Inl e \<Rightarrow> Inl e | Inr rest \<Rightarrow> Inr (bs @ rest)))"

section \<open>\<open>hashlib.sha256\<close>\<close>

text \<open>SHA-256 as FIPS 180-4 defines it, on 32-bit words.\<close>

definition K256 :: "32 word list" where
  "K256 = [
    0x428A2F98, 0x71374491, 0xB5C0FBCF, 0xE9B5DBA5, 0x3956C25B, 0x59F111F1, 0x923F82A4, 0xAB1C5ED5,
    0xD807AA98, 0x12835B01, 0x243185BE, 0x550C7DC3, 0x72BE5D74, 0x80DEB1FE, 0x9BDC06A7, 0xC19BF174,
    0xE49B69C1, 0xEFBE4786, 0x0FC19DC6, 0x240CA1CC, 0x2DE92C6F, 0x4A7484AA, 0x5CB0A9DC, 0x76F988DA,
    0x983E5152, 0xA831C66D, 0xB00327C8, 0xBF597FC7, 0xC6E00BF3, 0xD5A79147, 0x06CA6351, 0x14292967,
    0x27B70A85, 0x2E1B2138, 0x4D2C6DFC, 0x53380D13, 0x650A7354, 0x766A0ABB, 0x81C2C92E, 0x92722C85,
    0xA2BFE8A1, 0xA81A664B, 0xC24B8B70, 0xC76C51A3, 0xD192E819, 0xD6990624, 0xF40E3585, 0x106AA070,
    0x19A4C116, 0x1E376C08, 0x2748774C, 0x34B0BCB5, 0x391C0CB3, 0x4ED8AA4A, 0x5B9CCA4F, 0x682E6FF3,
    0x748F82EE, 0x78A5636F, 0x84C87814, 0x8CC70208, 0x90BEFFFA, 0xA4506CEB, 0xBEF9A3F7, 0xC67178F2]"

type_synonym sha_state =
  "32 word \<times> 32 word \<times> 32 word \<times> 32 word \<times> 32 word \<times> 32 word \<times> 32 word \<times> 32 word"

definition H256 :: sha_state where
  "H256 = (0x6A09E667, 0xBB67AE85, 0x3C6EF372, 0xA54FF53A,
           0x510E527F, 0x9B05688C, 0x1F83D9AB, 0x5BE0CD19)"

definition Ch :: "32 word \<Rightarrow> 32 word \<Rightarrow> 32 word \<Rightarrow> 32 word" where
  "Ch x y z = (x AND y) XOR (NOT x AND z)"

definition Maj :: "32 word \<Rightarrow> 32 word \<Rightarrow> 32 word \<Rightarrow> 32 word" where
  "Maj x y z = (x AND y) XOR (x AND z) XOR (y AND z)"

definition Sigma0 :: "32 word \<Rightarrow> 32 word" where
  "Sigma0 x = word_rotr 2 x XOR word_rotr 13 x XOR word_rotr 22 x"

definition Sigma1 :: "32 word \<Rightarrow> 32 word" where
  "Sigma1 x = word_rotr 6 x XOR word_rotr 11 x XOR word_rotr 25 x"

definition sigma0 :: "32 word \<Rightarrow> 32 word" where
  "sigma0 x = word_rotr 7 x XOR word_rotr 18 x XOR drop_bit 3 x"

definition sigma1 :: "32 word \<Rightarrow> 32 word" where
  "sigma1 x = word_rotr 17 x XOR word_rotr 19 x XOR drop_bit 10 x"

definition be32 :: "32 word \<Rightarrow> byte list" where
  "be32 w = [ucast (drop_bit 24 w), ucast (drop_bit 16 w), ucast (drop_bit 8 w), ucast w]"

definition be64 :: "64 word \<Rightarrow> byte list" where
  "be64 w = [ucast (drop_bit 56 w), ucast (drop_bit 48 w), ucast (drop_bit 40 w),
             ucast (drop_bit 32 w), ucast (drop_bit 24 w), ucast (drop_bit 16 w),
             ucast (drop_bit 8 w), ucast w]"

fun words_of :: "byte list \<Rightarrow> 32 word list" where
  "words_of (a # b # c # d # bs) =
     (push_bit 24 (ucast a) OR push_bit 16 (ucast b) OR push_bit 8 (ucast c) OR ucast d)
       # words_of bs"
| "words_of _ = []"

definition sha_pad :: "byte list \<Rightarrow> byte list" where
  "sha_pad m =
     m @ [0x80] @ replicate ((119 - length m mod 64) mod 64) 0 @ be64 (of_nat (8 * length m))"

text \<open>The message schedule, latest word first: sixteen words grow to sixty-four.\<close>

fun schedule :: "nat \<Rightarrow> 32 word list \<Rightarrow> 32 word list" where
  "schedule 0 ws = ws"
| "schedule (Suc n) ws =
     schedule n ((sigma1 (ws ! 1) + ws ! 6 + sigma0 (ws ! 14) + ws ! 15) # ws)"

definition sha_round :: "32 word \<times> 32 word \<Rightarrow> sha_state \<Rightarrow> sha_state" where
  "sha_round kw s =
     (case kw of (k, w) \<Rightarrow> case s of (a, b, c, d, e, f, g, h) \<Rightarrow>
        let t1 = h + Sigma1 e + Ch e f g + k + w;
            t2 = Sigma0 a + Maj a b c
        in (t1 + t2, a, b, c, d + t1, e, f, g))"

definition sha_add :: "sha_state \<Rightarrow> sha_state \<Rightarrow> sha_state" where
  "sha_add s t =
     (case s of (a, b, c, d, e, f, g, h) \<Rightarrow> case t of (a', b', c', d', e', f', g', h') \<Rightarrow>
        (a + a', b + b', c + c', d + d', e + e', f + f', g + g', h + h'))"

definition compress :: "sha_state \<Rightarrow> byte list \<Rightarrow> sha_state" where
  "compress s blk =
     sha_add s (fold sha_round (zip K256 (rev (schedule 48 (rev (words_of blk))))) s)"

function blocks :: "byte list \<Rightarrow> byte list list" where
  "blocks bs = (if bs = [] then [] else take 64 bs # blocks (drop 64 bs))"
  by pat_completeness auto
termination
  by (relation "measure length") auto

declare blocks.simps [simp del]

definition sha256 :: "byte list \<Rightarrow> byte list" where
  "sha256 m =
     (case fold (\<lambda>blk s. compress s blk) (blocks (sha_pad m)) H256 of
        (a, b, c, d, e, f, g, h) \<Rightarrow> concat (map be32 [a, b, c, d, e, f, g, h]))"

text \<open>\<open>.hexdigest()\<close>: two lowercase hexadecimal digits for each byte.\<close>

definition hex_of_byte :: "byte \<Rightarrow> pystr" where
  "hex_of_byte b = [hexdigit (unat b div 16), hexdigit (unat b mod 16)]"

definition hexdigest :: "byte list \<Rightarrow> pystr" where
  "hexdigest bs = concat (map hex_of_byte bs)"

section \<open>Schemas\<close>

text \<open>\<open>ImpactAction\<close>, the model of \<open>schemas.py\<close>. A \<open>datetime\<close> is a time stamp.\<close>

record ImpactAction =
  actor :: pystr
  title :: pystr
  description :: "pystr option"
  category :: pystr
  quantity :: "64 word"
  unit :: pystr
  location :: "pystr option"
  evidence_url :: "pystr option"
  attested :: bool
  proof_hash :: "pystr option"
  tx_id :: "pystr option"
  created_at :: "nat option"
  updated_at :: "nat option"

text \<open>
  The constructor \<open>ImpactAction(...)\<close> validates its arguments: \<open>category\<close> is one
  of the eight literals and \<open>quantity\<close> is \<open>gt=0\<close>, which on a double means: not a
  NaN, sign bit clear, not zero.
\<close>

definition categories :: "pystr list" where
  "categories = map ascii [''renewables'', ''recycling'', ''reforestation'', ''transport'',
     ''water'', ''buildings'', ''circular-economy'', ''other'']"

definition float_is_nan :: "64 word \<Rightarrow> bool" where
  "float_is_nan w \<longleftrightarrow> drop_bit 52 w AND 0x7FF = 0x7FF \<and> w AND 0xFFFFFFFFFFFFF \<noteq> 0"

definition float_gt_zero :: "64 word \<Rightarrow> bool" where
  "float_gt_zero w \<longleftrightarrow> \<not> float_is_nan w \<and> \<not> bit w 63 \<and> w \<noteq> 0"

definition ImpactAction_init :: "ImpactAction \<Rightarrow> error + ImpactAction" where
  "ImpactAction_init a =
     (if category a \<in> set categories \<and> float_gt_zero (quantity a) then Inr a
      else Inl ValidationError)"

definition opt_str :: "pystr option \<Rightarrow> pyval" where
  "opt_str v = (case v of None \<Rightarrow> PyNone | Some s \<Rightarrow> PyStr s)"

definition opt_datetime :: "nat option \<Rightarrow> pyval" where
  "opt_datetime v = (case v of None \<Rightarrow> PyNone | Some t \<Rightarrow> PyDatetime t)"

text \<open>
  \<open>model_dump(exclude=...)\<close>: the fields in the order the class declares them, without
  the excluded ones.
\<close>

definition model_dump :: "ImpactAction \<Rightarrow> pystr list \<Rightarrow> pydict" where
  "model_dump a exclude =
     filter (\<lambda>(k, v). k \<notin> set exclude)
       [(ascii ''actor'', PyStr (actor a)),
        (ascii ''title'', PyStr (title a)),
        (ascii ''description'', opt_str (description a)),
        (ascii ''category'', PyStr (category a)),
        (ascii ''quantity'', PyFloat (quantity a)),
        (ascii ''unit'', PyStr (unit a)),
        (ascii ''location'', opt_str (location a)),
        (ascii ''evidence_url'', opt_str (evidence_url a)),
        (ascii ''attested'', PyBool (attested a)),
        (ascii ''proof_hash'', opt_str (proof_hash a)),
        (ascii ''tx_id'', opt_str (tx_id a)),
        (ascii ''created_at'', opt_datetime (created_at a)),
        (ascii ''updated_at'', opt_datetime (updated_at a))]"

section \<open>The proof of an action\<close>

text \<open>
  \<open>action_proof_hash\<close>, \<open>main.py\<close> lines 25 to 28. Lines 26 and 27 bind
  \<open>payload\<close> and the text \<open>canonical\<close> (\<open>salt or ""\<close> is the empty text for
  \<open>None\<close> and for the empty salt); line 28 encodes and hashes it.
\<close>

definition canonical ::
  "(64 word \<Rightarrow> pystr) \<Rightarrow> ImpactAction \<Rightarrow> pystr option \<Rightarrow> error + pystr" where
  "canonical float_repr action salt =
     (let payload = model_dump action
            (map ascii [''attested'', ''proof_hash'', ''tx_id'', ''created_at'', ''updated_at''])
      in (case json_dumps float_repr True (ascii '','', ascii '':'') payload of
            Inl e \<Rightarrow> Inl e
          | Inr dumped \<Rightarrow>
              Inr (dumped @
                     (case salt of
                        None \<Rightarrow> ascii ''''
                      | Some s \<Rightarrow> (if s = [] then ascii '''' else s)))))"

definition action_proof_hash ::
  "(64 word \<Rightarrow> pystr) \<Rightarrow> ImpactAction \<Rightarrow> pystr option \<Rightarrow> error + pystr" where
  "action_proof_hash float_repr action salt =
     (case canonical float_repr action salt of
        Inl e \<Rightarrow> Inl e
      | Inr text \<Rightarrow>
          (case encode_utf8 text of
             Inl e \<Rightarrow> Inl e
           | Inr b \<Rightarrow> Inr (hexdigest (sha256 b))))"

text \<open>
  The operation \<open>derive\<close> of the specification is lines 127 and 128 of
  \<open>attest_action\<close>: the proof hash, and the transaction id taken from it.
\<close>

definition derive ::
  "(64 word \<Rightarrow> pystr) \<Rightarrow> ImpactAction \<Rightarrow> pystr option \<Rightarrow> error + pystr \<times> pystr" where
  "derive float_repr action salt =
     (case action_proof_hash float_repr action salt of
        Inl e \<Rightarrow> Inl e
      | Inr phash \<Rightarrow>
          (case encode_utf8 (phash @ ascii ''|tx'') of
             Inl e \<Rightarrow> Inl e
           | Inr b \<Rightarrow> Inr (phash, take 32 (hexdigest (sha256 b)))))"

section \<open>Request and proof document\<close>

text \<open>
  \<open>CreateProofRequest\<close> is the body of the attestation request and \<open>proof_doc\<close> the
  dictionary that \<open>attest_action\<close> inserts into the collection \<open>proof\<close>.
\<close>

record CreateProofRequest =
  action_id :: pystr
  salt :: "pystr option"
  signer_address :: "pystr option"
  signature :: "pystr option"
  chain_id :: "int option"

record proof_doc =
  action_id :: pystr
  proof_hash :: pystr
  tx_id :: pystr
  network :: pystr
  signer_address :: "pystr option"
  signature :: "pystr option"
  chain_id :: "int option"
  created_at :: nat
  updated_at :: nat

section \<open>Storage\<close>

text \<open>
  \<open>bson.ObjectId(s)\<close> for a \<open>str\<close>: twenty-four characters that \<open>bytes.fromhex\<close>
  accepts, else \<open>InvalidId\<close>. \<open>bytes.fromhex\<close> skips ASCII white space in front of
  a pair of hexadecimal digits.
\<close>

type_synonym oid = "byte list"

definition isspace :: "nat \<Rightarrow> bool" where
  "isspace c \<longleftrightarrow> (0x09 \<le> c \<and> c \<le> 0x0D) \<or> c = 0x20"

definition hexval :: "nat \<Rightarrow> nat option" where
  "hexval c =
     (if 0x30 \<le> c \<and> c \<le> 0x39 then Some (c - 0x30)
      else if 0x61 \<le> c \<and> c \<le> 0x66 then Some (c - 0x61 + 10)
      else if 0x41 \<le> c \<and> c \<le> 0x46 then Some (c - 0x41 + 10)
      else None)"

fun fromhex :: "pystr \<Rightarrow> error + byte list" where
  "fromhex [] = Inr []"
| "fromhex [c] = (if isspace c then Inr [] else Inl ValueError)"
| "fromhex (c # d # cs) =
     (if isspace c then fromhex (d # cs)
      else case (hexval c, hexval d) of
             (Some hi, Some lo) \<Rightarrow>
               (case fromhex cs of
                  Inl e \<Rightarrow> Inl e
                | Inr bs \<Rightarrow> Inr (of_nat (16 * hi + lo) # bs))
           | _ \<Rightarrow> Inl ValueError)"

definition ObjectId :: "pystr \<Rightarrow> error + oid" where
  "ObjectId s =
     (if length s = 24 then (case fromhex s of Inl e \<Rightarrow> Inl InvalidId | Inr b \<Rightarrow> Inr b)
      else Inl InvalidId)"

text \<open>
  The database handle \<open>db\<close> has the two collections the handler uses,
  \<open>db["impactaction"]\<close> and \<open>db["proof"]\<close>. A document of \<open>impactaction\<close> is its \<open>_id\<close>
  and the fields of the action; \<open>find_one\<close> and \<open>update_one\<close> take the first document
  with the \<open>_id\<close>.
\<close>

record Database =
  coll_impactaction :: "(oid \<times> ImpactAction) list"
  coll_proof :: "proof_doc list"

fun find_one :: "(oid \<times> 'a) list \<Rightarrow> oid \<Rightarrow> (oid \<times> 'a) option" where
  "find_one [] i = None"
| "find_one ((j, a) # docs) i = (if j = i then Some (j, a) else find_one docs i)"

fun update_one :: "(oid \<times> 'a) list \<Rightarrow> oid \<Rightarrow> ('a \<Rightarrow> 'a) \<Rightarrow> (oid \<times> 'a) list" where
  "update_one [] i set_fields = []"
| "update_one ((j, a) # docs) i set_fields =
     (if j = i then (j, set_fields a) # docs else (j, a) # update_one docs i set_fields)"

text \<open>
  \<open>insert_one\<close> encodes the document as BSON before anything is written, value after
  value in the order of the dictionary: a \<open>str\<close> with the strict UTF-8 codec (a lone
  surrogate raises \<open>UnicodeEncodeError\<close>), an \<open>int\<close> in at most eight bytes
  (\<open>OverflowError\<close> outside of the signed 64-bit range); \<open>None\<close> and a \<open>datetime\<close> are
  always encoded. The first value that cannot be encoded raises, and the collection is
  left as it was; otherwise the document is appended.
\<close>

definition bson_str :: "pystr \<Rightarrow> error option" where
  "bson_str s = (case encode_utf8 s of Inl e \<Rightarrow> Some e | Inr b \<Rightarrow> None)"

definition bson_int :: "int \<Rightarrow> error option" where
  "bson_int n = (if - (2 ^ 63) \<le> n \<and> n \<le> 2 ^ 63 - 1 then None else Some OverflowError)"

definition bson_optional :: "('a \<Rightarrow> error option) \<Rightarrow> 'a option \<Rightarrow> error option" where
  "bson_optional enc v = (case v of None \<Rightarrow> None | Some x \<Rightarrow> enc x)"

fun first_error :: "error option list \<Rightarrow> error option" where
  "first_error [] = None"
| "first_error (None # es) = first_error es"
| "first_error (Some e # es) = Some e"

definition bson_encode :: "proof_doc \<Rightarrow> error option" where
  "bson_encode doc =
     first_error
       [bson_str (proof_doc.action_id doc),
        bson_str (proof_doc.proof_hash doc),
        bson_str (proof_doc.tx_id doc),
        bson_str (proof_doc.network doc),
        bson_optional bson_str (proof_doc.signer_address doc),
        bson_optional bson_str (proof_doc.signature doc),
        bson_optional bson_int (proof_doc.chain_id doc)]"

definition insert_one :: "proof_doc list \<Rightarrow> proof_doc \<Rightarrow> error + proof_doc list" where
  "insert_one docs doc =
     (case bson_encode doc of Some e \<Rightarrow> Inl e | None \<Rightarrow> Inr (docs @ [doc]))"

section \<open>Attestation\<close>

text \<open>
  \<open>attest_action\<close>, \<open>main.py\<close> lines 100 to 150. The clock (\<open>now\<close>) and the module's
  database handle (\<open>db\<close>, \<open>None\<close> when the database is not configured) are arguments;
  the result is the response or the exception, and the handle as the call leaves it.
  An exception of \<open>insert_one\<close> (line 143) leaves the handler before the \<open>update_one\<close>
  of line 146, whose \<open>$set\<close> holds the two hexadecimal strings, \<open>True\<close> and the time.
\<close>

definition attest_action ::
  "(64 word \<Rightarrow> pystr) \<Rightarrow> nat \<Rightarrow> Database option \<Rightarrow> pystr \<Rightarrow> CreateProofRequest
     \<Rightarrow> (error + pystr \<times> pystr) \<times> Database option" where
  "attest_action float_repr now db action_id' body =
     (case db of
        None \<Rightarrow> (Inl (HTTPException 500 (ascii ''Database not configured'')), db)
      | Some d \<Rightarrow>
          (let raw = (case ObjectId action_id' of
                        Inl e \<Rightarrow> None
                      | Inr i \<Rightarrow> find_one (coll_impactaction d) i)
           in (case raw of
                 None \<Rightarrow> (Inl (HTTPException 404 (ascii ''Action not found'')), db)
               | Some (raw_id, r) \<Rightarrow>
                   (case ImpactAction_init
                           (r\<lparr>ImpactAction.created_at := None,
                              ImpactAction.updated_at := None\<rparr>) of
                      Inl e \<Rightarrow> (Inl e, db)
                    | Inr action \<Rightarrow>
                        (case action_proof_hash float_repr action
                                (CreateProofRequest.salt body) of
                           Inl e \<Rightarrow> (Inl e, db)
                         | Inr phash \<Rightarrow>
                             (case encode_utf8 (phash @ ascii ''|tx'') of
                                Inl e \<Rightarrow> (Inl e, db)
                              | Inr b \<Rightarrow>
                                  (let tx = take 32 (hexdigest (sha256 b));
                                       doc = \<lparr>proof_doc.action_id = action_id',
                                              proof_doc.proof_hash = phash,
                                              proof_doc.tx_id = tx,
                                              proof_doc.network = ascii ''sim-chain'',
                                              proof_doc.signer_address =
                                                CreateProofRequest.signer_address body,
                                              proof_doc.signature =
                                                CreateProofRequest.signature body,
                                              proof_doc.chain_id =
                                                CreateProofRequest.chain_id body,
                                              proof_doc.created_at = now,
                                              proof_doc.updated_at = now\<rparr>
                                   in (case insert_one (coll_proof d) doc of
                                         Inl e \<Rightarrow> (Inl e, db)
                                       | Inr proofs \<Rightarrow>
                                           (let d1 = d\<lparr>coll_proof := proofs\<rparr>;
                                                d2 = d1\<lparr>coll_impactaction :=
                                                  update_one (coll_impactaction d1) raw_id
                                                    (\<lambda>a. a\<lparr>attested := True,
                                                       ImpactAction.proof_hash := Some phash,
                                                       ImpactAction.tx_id := Some tx,
                                                       ImpactAction.updated_at := Some now\<rparr>)\<rparr>
                                            in (Inr (phash, tx), Some d2))))))))))"

section \<open>Notions used to state the properties\<close>

text \<open>
  The text \<open>json.dumps\<close> writes for an optional field, and the text it writes for the
  payload of an action: the eight content fields, keys in code point order, \<open>,\<close>
  between members and \<open>:\<close> after a key (\<open>json_content\<close> below proves that this is
  what \<open>json.dumps\<close> returns on the payload of \<open>action_proof_hash\<close>).
\<close>

definition opt_text :: "pystr option \<Rightarrow> pystr" where
  "opt_text v = (case v of None \<Rightarrow> ascii ''null'' | Some s \<Rightarrow> encode_basestring_ascii s)"

definition content_text :: "(64 word \<Rightarrow> pystr) \<Rightarrow> ImpactAction \<Rightarrow> pystr" where
  \<open>content_text float_repr a =
     ascii ''{"actor":'' @ encode_basestring_ascii (actor a) @
     ascii '',"category":'' @ encode_basestring_ascii (category a) @
     ascii '',"description":'' @ opt_text (description a) @
     ascii '',"evidence_url":'' @ opt_text (evidence_url a) @
     ascii '',"location":'' @ opt_text (location a) @
     ascii '',"quantity":'' @ float_repr (quantity a) @
     ascii '',"title":'' @ encode_basestring_ascii (title a) @
     ascii '',"unit":'' @ encode_basestring_ascii (unit a) @
     ascii ''}''\<close>

text \<open>The salt as text: the empty text when it is absent.\<close>

definition salt_text :: "pystr option \<Rightarrow> pystr" where
  "salt_text v = (case v of None \<Rightarrow> [] | Some s \<Rightarrow> s)"

definition ascii_text :: "pystr \<Rightarrow> bool" where
  "ascii_text s = list_all (\<lambda>c. c < 128) s"

definition lower_hex :: "nat \<Rightarrow> bool" where
  "lower_hex c \<longleftrightarrow> (48 \<le> c \<and> c \<le> 57) \<or> (97 \<le> c \<and> c \<le> 102)"

text \<open>
  The pair of the specification's section 4.2, in its words: \<open>proof_hash\<close> is the
  hexadecimal SHA-256 digest of the canonical bytes followed by the salt's bytes, and
  \<open>tx_id\<close> the first 32 characters of the hexadecimal SHA-256 digest of the string
  \<open>proof_hash + "|tx"\<close>.
\<close>

definition derive_spec :: "byte list \<Rightarrow> byte list \<Rightarrow> pystr \<times> pystr" where
  "derive_spec content_bytes salt_bytes =
     (let proof_hash = hexdigest (sha256 (content_bytes @ salt_bytes));
          tx_id = take 32 (hexdigest (sha256 (map of_nat (proof_hash @ ascii ''|tx''))))
      in (proof_hash, tx_id))"

text \<open>
  Concrete inputs: the action of the specification's end-to-end scenario (12.5 is the
  double \<open>0x4029000000000000\<close>), and a \<open>float_repr\<close> that writes it.
\<close>

definition example_float_repr :: "64 word \<Rightarrow> pystr" where
  "example_float_repr q = ascii ''12.5''"

definition example_action :: ImpactAction where
  "example_action =
     \<lparr>actor = ascii ''Test User'', title = ascii ''Solar generation'', description = None,
      category = ascii ''renewables'', quantity = 0x4029000000000000, unit = ascii ''kWh'',
      location = None, evidence_url = None, attested = False,
      ImpactAction.proof_hash = None, ImpactAction.tx_id = None,
      ImpactAction.created_at = None, ImpactAction.updated_at = None\<rparr>"

text \<open>
  Notions of the attestation: the document the handler's lookup yields (lines 105 to 108,
  \<open>None\<close> when \<open>ObjectId\<close> raises or nothing is stored under the id), the proof
  document of lines 132 to 142, the \<open>$set\<close> of line 148, and equality of the eight
  content fields.
\<close>

definition stored_action :: "Database \<Rightarrow> pystr \<Rightarrow> (oid \<times> ImpactAction) option" where
  "stored_action d action_id' =
     (case ObjectId action_id' of Inl e \<Rightarrow> None | Inr i \<Rightarrow> find_one (coll_impactaction d) i)"

definition new_proof :: "pystr \<Rightarrow> CreateProofRequest \<Rightarrow> nat \<Rightarrow> pystr \<Rightarrow> pystr \<Rightarrow> proof_doc" where
  "new_proof action_id' body now ph tx =
     \<lparr>proof_doc.action_id = action_id', proof_doc.proof_hash = ph, proof_doc.tx_id = tx,
      proof_doc.network = ascii ''sim-chain'',
      proof_doc.signer_address = CreateProofRequest.signer_address body,
      proof_doc.signature = CreateProofRequest.signature body,
      proof_doc.chain_id = CreateProofRequest.chain_id body,
      proof_doc.created_at = now, proof_doc.updated_at = now\<rparr>"

definition mark_attested :: "nat \<Rightarrow> pystr \<Rightarrow> pystr \<Rightarrow> ImpactAction \<Rightarrow> ImpactAction" where
  "mark_attested now ph tx a =
     a\<lparr>attested := True, ImpactAction.proof_hash := Some ph, ImpactAction.tx_id := Some tx,
       ImpactAction.updated_at := Some now\<rparr>"

definition same_content :: "ImpactAction \<Rightarrow> ImpactAction \<Rightarrow> bool" where
  "same_content a b \<longleftrightarrow>
     actor a = actor b \<and> title a = title b \<and> description a = description b \<and>
     category a = category b \<and> quantity a = quantity b \<and> unit a = unit b \<and>
     location a = location b \<and> evidence_url a = evidence_url b"

text \<open>
  What a request must satisfy for the handler's encoding steps to pass: no surrogate
  code point in the salt, the signer address and the signature (an absent one is the
  empty text here), and a chain id, if there is one, in the signed 64-bit range.
\<close>

definition no_surrogate :: "pystr \<Rightarrow> bool" where
  "no_surrogate s = list_all (\<lambda>c. c < 0xD800 \<or> 0xDFFF < c) s"

definition int64 :: "int option \<Rightarrow> bool" where
  "int64 v = (case v of None \<Rightarrow> True | Some n \<Rightarrow> - (2 ^ 63) \<le> n \<and> n \<le> 2 ^ 63 - 1)"

definition request_encodable :: "CreateProofRequest \<Rightarrow> bool" where
  "request_encodable body \<longleftrightarrow>
     no_surrogate (salt_text (CreateProofRequest.salt body)) \<and>
     no_surrogate (salt_text (CreateProofRequest.signer_address body)) \<and>
     no_surrogate (salt_text (CreateProofRequest.signature body)) \<and>
     int64 (CreateProofRequest.chain_id body)"

text \<open>A database holding the example action, and one in which it is already attested.\<close>

definition example_id :: pystr where
  "example_id = ascii ''65f0c1a2b3d4e5f60718293a''"

definition example_oid :: oid where
  "example_oid = [0x65, 0xF0, 0xC1, 0xA2, 0xB3, 0xD4, 0xE5, 0xF6, 0x07, 0x18, 0x29, 0x3A]"

definition example_db :: Database where
  "example_db = \<lparr>coll_impactaction = [(example_oid, example_action)], coll_proof = []\<rparr>"

definition example_body :: CreateProofRequest where
  "example_body =
     \<lparr>CreateProofRequest.action_id = example_id, salt = None,
      CreateProofRequest.signer_address = None, CreateProofRequest.signature = None,
      CreateProofRequest.chain_id = Some 1337\<rparr>"

definition example_attested_action :: ImpactAction where
  "example_attested_action =
     example_action\<lparr>attested := True, ImpactAction.proof_hash := Some (ascii ''00''),
       ImpactAction.tx_id := Some (ascii ''11''), ImpactAction.updated_at := Some 3\<rparr>"

definition example_attested_db :: Database where
  "example_attested_db =
     \<lparr>coll_impactaction = [(example_oid, example_attested_action)],
      coll_proof = [new_proof example_id example_body 3 (ascii ''00'') (ascii ''11'')]\<rparr>"

text \<open>
  Unicode scalar values are the code points of a decoded text: every code point of
  Python but the surrogates. \<open>plain\<close> are the characters that \<open>ensure_ascii\<close> leaves
  as they are, \<open>high_surrogate\<close> and \<open>low_surrogate\<close> the two halves of the pair that
  is written for a code point above U+FFFF, and \<open>unshort\<close> reads a two-character
  escape back.
\<close>

definition scalar :: "nat \<Rightarrow> bool" where
  "scalar c \<longleftrightarrow> c < 0x110000 \<and> (c < 0xD800 \<or> 0xDFFF < c)"

definition scalar_text :: "pystr \<Rightarrow> bool" where
  "scalar_text s = list_all scalar s"



definition plain :: "nat \<Rightarrow> bool" where
  "plain c \<longleftrightarrow> 0x20 \<le> c \<and> c \<le> 0x7E \<and> c \<noteq> 0x22 \<and> c \<noteq> 0x5C"




text \<open>The bytes that line 28 hashes: the canonical text of line 27, encoded.\<close>

definition canonical_bytes ::
  "(64 word \<Rightarrow> pystr) \<Rightarrow> ImpactAction \<Rightarrow> pystr option \<Rightarrow> error + byte list" where
  "canonical_bytes float_repr action s =
     (case canonical float_repr action s of Inl e \<Rightarrow> Inl e | Inr text \<Rightarrow> encode_utf8 text)"




section \<open>The canonical text\<close>

lemma encode_value_opt_str: "encode_value fr (opt_str v) = Inr (opt_text v)"
  by (cases v) (simp_all add: opt_str_def opt_text_def)

lemma model_dump_content:
  "model_dump a (map ascii [''attested'', ''proof_hash'', ''tx_id'', ''created_at'', ''updated_at'']) =
     [(ascii ''actor'', PyStr (actor a)),
      (ascii ''title'', PyStr (title a)),
      (ascii ''description'', opt_str (description a)),
      (ascii ''category'', PyStr (category a)),
      (ascii ''quantity'', PyFloat (quantity a)),
      (ascii ''unit'', PyStr (unit a)),
      (ascii ''location'', opt_str (location a)),
      (ascii ''evidence_url'', opt_str (evidence_url a))]"
  by (simp add: model_dump_def ascii_def)

lemma sort_content:
  "sort_key fst
     [(ascii ''actor'', v1), (ascii ''title'', v2), (ascii ''description'', v3),
      (ascii ''category'', v4), (ascii ''quantity'', v5), (ascii ''unit'', v6),
      (ascii ''location'', v7), (ascii ''evidence_url'', v8)] =
     [(ascii ''actor'', v1), (ascii ''category'', v4), (ascii ''description'', v3),
      (ascii ''evidence_url'', v8), (ascii ''location'', v7), (ascii ''quantity'', v5),
      (ascii ''title'', v2), (ascii ''unit'', v6)]"
  by (simp add: ascii_def)

lemma key_text:
  \<open>encode_basestring_ascii (ascii ''actor'') = ascii ''"actor"''\<close>
  \<open>encode_basestring_ascii (ascii ''category'') = ascii ''"category"''\<close>
  \<open>encode_basestring_ascii (ascii ''description'') = ascii ''"description"''\<close>
  \<open>encode_basestring_ascii (ascii ''evidence_url'') = ascii ''"evidence_url"''\<close>
  \<open>encode_basestring_ascii (ascii ''location'') = ascii ''"location"''\<close>
  \<open>encode_basestring_ascii (ascii ''quantity'') = ascii ''"quantity"''\<close>
  \<open>encode_basestring_ascii (ascii ''title'') = ascii ''"title"''\<close>
  \<open>encode_basestring_ascii (ascii ''unit'') = ascii ''"unit"''\<close>
  by (simp_all add: encode_basestring_ascii_def escape_char_def ESCAPE_ASCII_def ascii_def)



lemma encode_items_content:
  "encode_items fr (ascii '':'')
     [(ascii ''actor'', PyStr s1), (ascii ''category'', PyStr s2),
      (ascii ''description'', opt_str o1), (ascii ''evidence_url'', opt_str o2),
      (ascii ''location'', opt_str o3), (ascii ''quantity'', PyFloat q),
      (ascii ''title'', PyStr s3), (ascii ''unit'', PyStr s4)] =
   Inr [encode_basestring_ascii (ascii ''actor'') @ ascii '':'' @ encode_basestring_ascii s1,
        encode_basestring_ascii (ascii ''category'') @ ascii '':'' @ encode_basestring_ascii s2,
        encode_basestring_ascii (ascii ''description'') @ ascii '':'' @ opt_text o1,
        encode_basestring_ascii (ascii ''evidence_url'') @ ascii '':'' @ opt_text o2,
        encode_basestring_ascii (ascii ''location'') @ ascii '':'' @ opt_text o3,
        encode_basestring_ascii (ascii ''quantity'') @ ascii '':'' @ fr q,
        encode_basestring_ascii (ascii ''title'') @ ascii '':'' @ encode_basestring_ascii s3,
        encode_basestring_ascii (ascii ''unit'') @ ascii '':'' @ encode_basestring_ascii s4]"
  by (simp add: encode_value_opt_str)

lemma ascii_append: "ascii (xs @ ys) = ascii xs @ ascii ys"
  by (simp add: ascii_def)

lemma json_content:
  "json_dumps fr True (ascii '','', ascii '':'')
     (model_dump a (map ascii [''attested'', ''proof_hash'', ''tx_id'', ''created_at'', ''updated_at'']))
   = Inr (content_text fr a)"
proof -
  have "json_dumps fr True (ascii '','', ascii '':'')
     (model_dump a (map ascii [''attested'', ''proof_hash'', ''tx_id'', ''created_at'', ''updated_at'']))
    = Inr (ascii ''{'' @
        (encode_basestring_ascii (ascii ''actor'') @ ascii '':'' @ encode_basestring_ascii (actor a)) @ ascii '','' @
        (encode_basestring_ascii (ascii ''category'') @ ascii '':'' @ encode_basestring_ascii (category a)) @ ascii '','' @
        (encode_basestring_ascii (ascii ''description'') @ ascii '':'' @ opt_text (description a)) @ ascii '','' @
        (encode_basestring_ascii (ascii ''evidence_url'') @ ascii '':'' @ opt_text (evidence_url a)) @ ascii '','' @
        (encode_basestring_ascii (ascii ''location'') @ ascii '':'' @ opt_text (location a)) @ ascii '','' @
        (encode_basestring_ascii (ascii ''quantity'') @ ascii '':'' @ fr (quantity a)) @ ascii '','' @
        (encode_basestring_ascii (ascii ''title'') @ ascii '':'' @ encode_basestring_ascii (title a)) @ ascii '','' @
        (encode_basestring_ascii (ascii ''unit'') @ ascii '':'' @ encode_basestring_ascii (unit a)) @ ascii ''}'')"
    unfolding model_dump_content json_dumps_def
    by (simp only: sort_content encode_items_content if_True Let_def prod.case sum.case join.simps append_assoc)
  also have "\<dots> = Inr (content_text fr a)"
    unfolding key_text content_text_def by (simp add: ascii_def)
  finally show ?thesis .
qed

lemma ascii_Nil: "ascii [] = []"
  by (simp add: ascii_def)

lemma canonical_text: "canonical fr a s = Inr (content_text fr a @ salt_text s)"
  unfolding canonical_def Let_def json_content
  by (cases s) (simp_all add: salt_text_def ascii_Nil)

lemma encode_utf8_append:
  "encode_utf8 (xs @ ys) =
     (case encode_utf8 xs of
        Inl e \<Rightarrow> Inl e
      | Inr a \<Rightarrow> (case encode_utf8 ys of Inl e \<Rightarrow> Inl e | Inr b \<Rightarrow> Inr (a @ b)))"
  by (induction xs) (simp_all split: sum.splits)

lemma encode_utf8_error: "encode_utf8 xs = Inl e \<Longrightarrow> e = UnicodeEncodeError"
  by (induction xs arbitrary: e) (auto simp: utf8_char_def split: sum.splits if_splits)

lemma encode_utf8_ascii: "ascii_text xs \<Longrightarrow> encode_utf8 xs = Inr (map of_nat xs)"
  by (induction xs) (simp_all add: ascii_text_def utf8_char_def)

lemma ascii_text_append: "ascii_text (xs @ ys) \<longleftrightarrow> ascii_text xs \<and> ascii_text ys"
  by (simp add: ascii_text_def)

lemma hexdigit_lower_hex: "n < 16 \<Longrightarrow> lower_hex (hexdigit n)"
  by (auto simp: hexdigit_def lower_hex_def)

lemma lower_hex_ascii: "list_all lower_hex xs \<Longrightarrow> ascii_text xs"
  by (induction xs) (auto simp: ascii_text_def lower_hex_def)

lemma hexdigest_length: "length (hexdigest bs) = 2 * length bs"
  by (induction bs) (simp_all add: hexdigest_def hex_of_byte_def)

lemma hex_of_byte_lower: "list_all lower_hex (hex_of_byte b)"
proof -
  have "unat b < 256" using unsigned_less [of b, where ?'a = nat] by simp
  then have "unat b div 16 < 16" by simp
  then show ?thesis by (simp add: hex_of_byte_def hexdigit_lower_hex)
qed

lemma hexdigest_lower: "list_all lower_hex (hexdigest bs)"
  by (induction bs) (simp_all add: hexdigest_def hex_of_byte_lower)

lemma sha256_length: "length (sha256 m) = 32"
  by (simp add: sha256_def be32_def split: prod.splits)


lemma hexdigit_ascii: "n < 16 \<Longrightarrow> hexdigit n < 128"
  by (simp add: hexdigit_def)

lemma hex4_ascii: "ascii_text (hex4 n)"
  by (simp add: hex4_def ascii_text_def hexdigit_ascii)

lemma replace_ascii: "ascii_text (replace c)"
proof (cases "ESCAPE_DCT c")
  case None
  then show ?thesis
    using hex4_ascii by (simp add: replace_def Let_def ascii_text_def)
next
  case (Some t)
  then have "ascii_text t"
    by (auto simp: ESCAPE_DCT_def ascii_text_def split: if_splits)
  with Some show ?thesis by (simp add: replace_def)
qed

lemma escape_char_ascii: "ascii_text (escape_char c)"
  by (simp add: escape_char_def replace_ascii) (simp add: ESCAPE_ASCII_def ascii_text_def)

lemma concat_escape_ascii: "ascii_text (concat (map escape_char s))"
  using escape_char_ascii by (induction s) (simp_all add: ascii_text_def)

lemma encode_basestring_ascii_ascii: "ascii_text (encode_basestring_ascii s)"
  using concat_escape_ascii [of s] by (simp add: encode_basestring_ascii_def ascii_text_def)

lemma opt_text_ascii: "ascii_text (opt_text v)"
  by (cases v) (simp_all add: opt_text_def encode_basestring_ascii_ascii, simp add: ascii_text_def ascii_def)


lemma ascii_lit_ascii: "ascii_text (ascii ''|tx'')"
  by (simp add: ascii_text_def ascii_def)

lemma hexdigest_ascii: "ascii_text (hexdigest bs)"
  by (rule lower_hex_ascii) (rule hexdigest_lower)

lemma encode_tx: "encode_utf8 (hexdigest bs @ ascii ''|tx'') = Inr (map of_nat (hexdigest bs @ ascii ''|tx''))"
  by (rule encode_utf8_ascii) (simp add: ascii_text_append hexdigest_ascii ascii_lit_ascii)

lemma action_proof_hash_eq:
  "action_proof_hash fr a s =
     (case encode_utf8 (content_text fr a @ salt_text s) of
        Inl e \<Rightarrow> Inl UnicodeEncodeError
      | Inr b \<Rightarrow> Inr (hexdigest (sha256 b)))"
  by (auto simp: action_proof_hash_def canonical_text split: sum.splits dest: encode_utf8_error)

lemma derive_eq:
  "derive fr a s =
     (case encode_utf8 (content_text fr a @ salt_text s) of
        Inl e \<Rightarrow> Inl UnicodeEncodeError
      | Inr b \<Rightarrow>
          Inr (hexdigest (sha256 b),
               take 32 (hexdigest (sha256 (map of_nat (hexdigest (sha256 b) @ ascii ''|tx''))))))"
  by (simp add: derive_def action_proof_hash_eq encode_tx split: sum.splits)

lemma content_text_ascii:
  "ascii_text (fr (quantity a)) \<Longrightarrow> ascii_text (content_text fr a)"
  unfolding content_text_def ascii_text_append
  by (simp add: encode_basestring_ascii_ascii opt_text_ascii) (simp add: ascii_text_def ascii_def)

lemma derive_total:
  assumes "ascii_text (fr (quantity a))"
  shows "derive fr a s =
     (case encode_utf8 (salt_text s) of
        Inl e \<Rightarrow> Inl UnicodeEncodeError
      | Inr sb \<Rightarrow> Inr (derive_spec (map of_nat (content_text fr a)) sb))"
  using encode_utf8_ascii [OF content_text_ascii [of fr a, OF assms]]
  by (simp add: derive_eq encode_utf8_append derive_spec_def Let_def split: sum.splits)

lemma derive_format:
  "case derive fr a s of
     Inl e \<Rightarrow> e = UnicodeEncodeError \<and>
       encode_utf8 (content_text fr a @ salt_text s) = Inl UnicodeEncodeError
   | Inr (ph, tx) \<Rightarrow>
       length ph = 64 \<and> list_all lower_hex ph \<and> length tx = 32 \<and> list_all lower_hex tx \<and>
       tx = take 32 (hexdigest (sha256 (map of_nat (ph @ ascii ''|tx''))))"
proof (cases "encode_utf8 (content_text fr a @ salt_text s)")
  case (Inl e)
  then show ?thesis using encode_utf8_error [OF Inl] by (simp add: derive_eq)
next
  case (Inr b)
  have "list_all lower_hex (take 32 (hexdigest bs))" for bs
    using hexdigest_lower [of bs] by (simp add: list_all_iff) (meson in_set_takeD)
  with Inr show ?thesis
    by (simp add: derive_eq hexdigest_length sha256_length hexdigest_lower)
qed

section \<open>Storage and the handler\<close>

lemma content_text_cong: "same_content a b \<Longrightarrow> content_text fr a = content_text fr b"
  by (simp add: same_content_def content_text_def)

lemma derive_cong: "same_content a b \<Longrightarrow> derive fr a s = derive fr b s"
  by (simp add: derive_eq content_text_cong)


lemma same_content_timestamps:
  "same_content (r\<lparr>ImpactAction.created_at := c, ImpactAction.updated_at := u\<rparr>) r"
  by (simp add: same_content_def)

lemma same_content_mark: "same_content (mark_attested now ph tx r) r"
  by (simp add: same_content_def mark_attested_def)

lemma find_one_id: "find_one docs i = Some (j, a) \<Longrightarrow> j = i"
  by (induction docs) (auto split: if_splits)

lemma find_one_update_one:
  "find_one docs i = Some (i, a) \<Longrightarrow> find_one (update_one docs i f) i = Some (i, f a)"
  by (induction docs) (auto split: if_splits)

lemma find_one_update_other:
  "k \<noteq> i \<Longrightarrow> find_one (update_one docs i f) k = find_one docs k"
  by (induction docs) auto

lemma update_one_ids: "map fst (update_one docs i f) = map fst docs"
  by (induction docs) auto

lemma ImpactAction_init_cases:
  "ImpactAction_init a = Inr a' \<Longrightarrow> a' = a"
  "ImpactAction_init a = Inl e \<Longrightarrow> e = ValidationError"
  by (auto simp: ImpactAction_init_def split: if_splits)

lemma attest_action_eq:
  "attest_action fr now (Some d) aid body =
     (case stored_action d aid of
        None \<Rightarrow> (Inl (HTTPException 404 (ascii ''Action not found'')), Some d)
      | Some (i, r) \<Rightarrow>
          (case ImpactAction_init (r\<lparr>ImpactAction.created_at := None,
                                      ImpactAction.updated_at := None\<rparr>) of
             Inl e \<Rightarrow> (Inl e, Some d)
           | Inr action \<Rightarrow>
               (case derive fr r (CreateProofRequest.salt body) of
                  Inl e \<Rightarrow> (Inl e, Some d)
                | Inr (ph, tx) \<Rightarrow>
                    (case bson_encode (new_proof aid body now ph tx) of
                       Some e \<Rightarrow> (Inl e, Some d)
                     | None \<Rightarrow>
                         (Inr (ph, tx),
                          Some (d\<lparr>coll_proof := coll_proof d @ [new_proof aid body now ph tx],
                                  coll_impactaction :=
                                    update_one (coll_impactaction d) i
                                      (mark_attested now ph tx)\<rparr>))))))"
proof (cases "stored_action d aid")
  case None
  then show ?thesis
    by (simp add: attest_action_def stored_action_def split: sum.splits)
next
  case (Some p)
  obtain i r where p: "p = (i, r)" by (cases p)
  let ?r = "r\<lparr>ImpactAction.created_at := None, ImpactAction.updated_at := None\<rparr>"
  have raw: "(case ObjectId aid of Inl e \<Rightarrow> None | Inr i \<Rightarrow> find_one (coll_impactaction d) i)
      = Some (i, r)"
    using Some p by (simp add: stored_action_def)
  show ?thesis
  proof (cases "ImpactAction_init ?r")
    case (Inl e)
    with Some p raw show ?thesis by (simp add: attest_action_def)
  next
    case (Inr action)
    then have action: "action = ?r" by (rule ImpactAction_init_cases)
    have d: "derive fr ?r (CreateProofRequest.salt body) = derive fr r (CreateProofRequest.salt body)"
      by (rule derive_cong) (rule same_content_timestamps)
    show ?thesis
      using Some p raw Inr action d
      by (auto simp: attest_action_def derive_def insert_one_def new_proof_def
          mark_attested_def [abs_def] Let_def split: sum.splits option.splits)
  qed
qed


lemma example_ObjectId: "ObjectId example_id = Inr example_oid"
  by (simp add: ObjectId_def example_id_def example_oid_def ascii_def isspace_def hexval_def)

lemma absent_ObjectId:
  "ObjectId (ascii ''ffffffffffffffffffffffff'') =
     Inr [0xFF, 0xFF, 0xFF, 0xFF, 0xFF, 0xFF, 0xFF, 0xFF, 0xFF, 0xFF, 0xFF, 0xFF]"
  by (simp add: ObjectId_def ascii_def isspace_def hexval_def)

lemma malformed_ObjectId: "ObjectId (ascii ''nonexistent-id'') = Inl InvalidId"
  by (simp add: ObjectId_def ascii_def)

lemma example_stored: "stored_action example_db example_id = Some (example_oid, example_action)"
  by (simp add: stored_action_def example_ObjectId example_db_def)

lemma example_valid:
  "ImpactAction_init (example_action\<lparr>ImpactAction.created_at := None,
     ImpactAction.updated_at := None\<rparr>) =
   Inr (example_action\<lparr>ImpactAction.created_at := None, ImpactAction.updated_at := None\<rparr>)"
  by (simp add: ImpactAction_init_def example_action_def categories_def float_gt_zero_def
      float_is_nan_def ascii_def)


lemma example_float_ascii: "ascii_text (example_float_repr q)"
  by (simp add: example_float_repr_def ascii_text_def ascii_def)

lemma example_derive:
  "derive example_float_repr example_action None =
     Inr (derive_spec (map of_nat (content_text example_float_repr example_action)) [])"
  by (simp add: derive_total [of example_float_repr example_action, OF example_float_ascii]
      salt_text_def)

lemma attest_proofs_append_only:
  assumes "attest_action fr now (Some d) aid body = (res, Some d2)"
  shows "take (length (coll_proof d)) (coll_proof d2) = coll_proof d \<and>
         (case res of Inl e \<Rightarrow> coll_proof d2 = coll_proof d
          | Inr (ph, tx) \<Rightarrow> coll_proof d2 = coll_proof d @ [new_proof aid body now ph tx])"
  using assms unfolding attest_action_eq
  by (auto split: option.splits sum.splits prod.splits)

lemma example_attested_stored:
  "stored_action example_attested_db example_id = Some (example_oid, example_attested_action)"
  by (simp add: stored_action_def example_ObjectId example_attested_db_def)

lemma payload_keys_inj:
  "inj_on fst (set (model_dump a
     (map ascii [''attested'', ''proof_hash'', ''tx_id'', ''created_at'', ''updated_at''])))"
  unfolding model_dump_content by (simp add: ascii_def)

lemma json_dumps_order:
  assumes "mset payload = mset (model_dump a
     (map ascii [''attested'', ''proof_hash'', ''tx_id'', ''created_at'', ''updated_at'']))"
  shows "json_dumps fr True seps payload = json_dumps fr True seps (model_dump a
     (map ascii [''attested'', ''proof_hash'', ''tx_id'', ''created_at'', ''updated_at'']))"
proof -
  let ?p = "model_dump a
     (map ascii [''attested'', ''proof_hash'', ''tx_id'', ''created_at'', ''updated_at''])"
  have "set payload = set ?p" using assms by (rule mset_eq_setD)
  then have inj: "inj_on fst (set payload)" using payload_keys_inj [of a] by simp
  have "sort_key fst payload = sort_key fst ?p"
    by (rule sort_key_inj_key_eq) (simp_all add: assms inj)
  then show ?thesis by (simp add: json_dumps_def)
qed

section \<open>Encoding of the proof document\<close>

lemma utf8_char_no_surrogate:
  "(\<exists>b. utf8_char c = Inr b) \<longleftrightarrow> (c < 0xD800 \<or> 0xDFFF < c)"
  by (auto simp: utf8_char_def)

lemma utf8_char_Inl: "utf8_char c = Inl e \<Longrightarrow> \<not> (c < 0xD800 \<or> 0xDFFF < c)"
  by (auto simp: utf8_char_def split: if_splits)

lemma encode_utf8_no_surrogate:
  "(\<exists>b. encode_utf8 s = Inr b) \<longleftrightarrow> no_surrogate s"
proof (induction s)
  case Nil
  show ?case by (simp add: no_surrogate_def)
next
  case (Cons c cs)
  show ?case
  proof (cases "utf8_char c")
    case (Inl e)
    then show ?thesis using utf8_char_Inl [OF Inl] by (simp add: no_surrogate_def)
  next
    case (Inr b)
    then have "c < 0xD800 \<or> 0xDFFF < c" using utf8_char_no_surrogate [of c] by blast
    then show ?thesis using Cons Inr
      by (cases "encode_utf8 cs") (simp_all add: no_surrogate_def)
  qed
qed

lemma bson_str_None: "bson_str s = None \<longleftrightarrow> no_surrogate s"
  using encode_utf8_no_surrogate [of s] by (cases "encode_utf8 s") (simp_all add: bson_str_def)

lemma bson_str_Some: "bson_str s = Some e \<Longrightarrow> e = UnicodeEncodeError \<and> \<not> no_surrogate s"
  using bson_str_None [of s] encode_utf8_error [of s e]
  by (cases "encode_utf8 s") (simp_all add: bson_str_def)

lemma ascii_no_surrogate: "ascii_text s \<Longrightarrow> no_surrogate s"
  by (induction s) (simp_all add: ascii_text_def no_surrogate_def)

lemma hexval_ascii: "hexval c = Some v \<Longrightarrow> c < 128"
  by (simp add: hexval_def split: if_splits)

lemma isspace_ascii: "isspace c \<Longrightarrow> c < 128"
  by (auto simp: isspace_def)

lemma fromhex_ascii: "fromhex s = Inr b \<Longrightarrow> ascii_text s"
proof (induction s arbitrary: b rule: fromhex.induct)
  case 1
  show ?case by (simp add: ascii_text_def)
next
  case (2 c)
  then show ?case by (simp add: ascii_text_def isspace_ascii split: if_splits)
next
  case (3 c d cs)
  show ?case
  proof (cases "isspace c")
    case True
    then have "ascii_text (d # cs)" using 3 by simp
    then show ?thesis using True by (simp add: ascii_text_def isspace_ascii)
  next
    case False
    then obtain hi lo bs where "hexval c = Some hi" "hexval d = Some lo" "fromhex cs = Inr bs"
      using 3(3) by (auto split: option.splits sum.splits)
    then show ?thesis using 3(2) False
      by (simp add: ascii_text_def hexval_ascii)
  qed
qed

lemma ObjectId_ascii: "ObjectId s = Inr i \<Longrightarrow> ascii_text s"
  by (auto simp: ObjectId_def fromhex_ascii split: if_splits sum.splits)

lemma stored_action_ascii: "stored_action d aid = Some p \<Longrightarrow> ascii_text aid"
  by (auto simp: stored_action_def ObjectId_ascii split: sum.splits)

lemma bson_optional_str: "bson_optional bson_str v = None \<longleftrightarrow> no_surrogate (salt_text v)"
  by (cases v) (simp_all add: bson_optional_def salt_text_def bson_str_None no_surrogate_def)

lemma bson_optional_str_Some:
  "bson_optional bson_str v = Some e \<Longrightarrow> e = UnicodeEncodeError"
  by (cases v) (auto simp: bson_optional_def dest: bson_str_Some)

lemma bson_optional_int: "bson_optional bson_int v = None \<longleftrightarrow> int64 v"
  by (cases v) (simp_all add: bson_optional_def bson_int_def int64_def)

lemma bson_optional_int_Some: "bson_optional bson_int v = Some e \<Longrightarrow> e = OverflowError"
  by (cases v) (auto simp: bson_optional_def bson_int_def split: if_splits)

lemma sim_chain_ascii: "ascii_text (ascii ''sim-chain'')"
  by (simp add: ascii_text_def ascii_def)

lemma bson_encode_new_proof:
  assumes "ascii_text aid" and "list_all lower_hex ph" and "list_all lower_hex tx"
  shows "bson_encode (new_proof aid body now ph tx) =
     first_error [bson_optional bson_str (CreateProofRequest.signer_address body),
                  bson_optional bson_str (CreateProofRequest.signature body),
                  bson_optional bson_int (CreateProofRequest.chain_id body)]"
proof -
  have "bson_str aid = None" "bson_str ph = None" "bson_str tx = None"
    "bson_str (ascii ''sim-chain'') = None"
    using assms sim_chain_ascii
    by (simp_all add: bson_str_None ascii_no_surrogate lower_hex_ascii)
  then show ?thesis by (simp add: bson_encode_def new_proof_def)
qed

lemma first_error_None: "first_error es = None \<longleftrightarrow> list_all (\<lambda>e. e = None) es"
  by (induction es rule: first_error.induct) simp_all

lemma first_error_Some: "first_error es = Some e \<Longrightarrow> Some e \<in> set es"
  by (induction es rule: first_error.induct) auto

lemma attest_action_stored:
  assumes "stored_action d aid = Some (i, r)"
    and "ImpactAction_init (r\<lparr>ImpactAction.created_at := None,
           ImpactAction.updated_at := None\<rparr>) = Inr a"
    and "derive fr r (CreateProofRequest.salt body) = Inr (ph, tx)"
  shows "attest_action fr now (Some d) aid body =
     (case first_error [bson_optional bson_str (CreateProofRequest.signer_address body),
                        bson_optional bson_str (CreateProofRequest.signature body),
                        bson_optional bson_int (CreateProofRequest.chain_id body)] of
        Some e \<Rightarrow> (Inl e, Some d)
      | None \<Rightarrow>
          (Inr (ph, tx),
           Some (d\<lparr>coll_proof := coll_proof d @ [new_proof aid body now ph tx],
                   coll_impactaction :=
                     update_one (coll_impactaction d) i (mark_attested now ph tx)\<rparr>)))"
proof -
  have "list_all lower_hex ph" "list_all lower_hex tx"
    using derive_format [of fr r "CreateProofRequest.salt body"] assms(3) by auto
  then have "bson_encode (new_proof aid body now ph tx) =
     first_error [bson_optional bson_str (CreateProofRequest.signer_address body),
                  bson_optional bson_str (CreateProofRequest.signature body),
                  bson_optional bson_int (CreateProofRequest.chain_id body)]"
    using stored_action_ascii [OF assms(1)] by (rule bson_encode_new_proof [rotated])
  then show ?thesis using assms by (simp add: attest_action_eq)
qed

lemma attest_action_raises:
  assumes "stored_action d aid = Some (i, r)"
    and "ImpactAction_init (r\<lparr>ImpactAction.created_at := None,
           ImpactAction.updated_at := None\<rparr>) = Inr a"
    and "ascii_text (fr (quantity r))"
    and "\<not> request_encodable body"
  shows "\<exists>e. attest_action fr now (Some d) aid body = (Inl e, Some d) \<and>
           (e = UnicodeEncodeError \<or> e = OverflowError)"
proof (cases "no_surrogate (salt_text (CreateProofRequest.salt body))")
  case False
  then have "encode_utf8 (salt_text (CreateProofRequest.salt body)) = Inl UnicodeEncodeError"
    using encode_utf8_no_surrogate [of "salt_text (CreateProofRequest.salt body)"]
      encode_utf8_error [of "salt_text (CreateProofRequest.salt body)"]
    by (cases "encode_utf8 (salt_text (CreateProofRequest.salt body))") auto
  then have "derive fr r (CreateProofRequest.salt body) = Inl UnicodeEncodeError"
    by (simp add: derive_total [of fr r, OF assms(3)])
  then show ?thesis using assms(1,2) by (simp add: attest_action_eq)
next
  case True
  then obtain sb where "encode_utf8 (salt_text (CreateProofRequest.salt body)) = Inr sb"
    using encode_utf8_no_surrogate [of "salt_text (CreateProofRequest.salt body)"] by blast
  then obtain ph tx where der: "derive fr r (CreateProofRequest.salt body) = Inr (ph, tx)"
    by (simp add: derive_total [of fr r, OF assms(3)] derive_spec_def Let_def)
  let ?es = "[bson_optional bson_str (CreateProofRequest.signer_address body),
              bson_optional bson_str (CreateProofRequest.signature body),
              bson_optional bson_int (CreateProofRequest.chain_id body)]"
  have "first_error ?es \<noteq> None"
    using assms(4) True
    by (simp add: first_error_None request_encodable_def bson_optional_str bson_optional_int)
  then obtain e where e: "first_error ?es = Some e" by auto
  then have "Some e \<in> set ?es" by (rule first_error_Some)
  then have "bson_optional bson_str (CreateProofRequest.signer_address body) = Some e \<or>
      bson_optional bson_str (CreateProofRequest.signature body) = Some e \<or>
      bson_optional bson_int (CreateProofRequest.chain_id body) = Some e"
    by auto
  then have "e = UnicodeEncodeError \<or> e = OverflowError"
    by (auto dest: bson_optional_str_Some bson_optional_int_Some)
  then show ?thesis
    using attest_action_stored [OF assms(1,2) der, of now] e by simp
qed

lemma attest_action_succeeds:
  assumes "stored_action d aid = Some (i, r)"
    and "ImpactAction_init (r\<lparr>ImpactAction.created_at := None,
           ImpactAction.updated_at := None\<rparr>) = Inr a"
    and "ascii_text (fr (quantity r))"
    and "request_encodable body"
  shows "\<exists>ph tx. derive fr r (CreateProofRequest.salt body) = Inr (ph, tx) \<and>
     attest_action fr now (Some d) aid body =
       (Inr (ph, tx),
        Some (d\<lparr>coll_proof := coll_proof d @ [new_proof aid body now ph tx],
                coll_impactaction :=
                  update_one (coll_impactaction d) i (mark_attested now ph tx)\<rparr>))"
proof -
  obtain sb where "encode_utf8 (salt_text (CreateProofRequest.salt body)) = Inr sb"
    using assms(4) encode_utf8_no_surrogate [of "salt_text (CreateProofRequest.salt body)"]
    by (auto simp: request_encodable_def)
  then obtain ph tx where der: "derive fr r (CreateProofRequest.salt body) = Inr (ph, tx)"
    by (simp add: derive_total [of fr r, OF assms(3)] derive_spec_def Let_def)
  have "first_error [bson_optional bson_str (CreateProofRequest.signer_address body),
                     bson_optional bson_str (CreateProofRequest.signature body),
                     bson_optional bson_int (CreateProofRequest.chain_id body)] = None"
    using assms(4)
    by (simp add: first_error_None request_encodable_def bson_optional_str bson_optional_int)
  then show ?thesis
    using attest_action_stored [OF assms(1,2) der, of now] der by simp
qed

lemma example_attested_valid:
  "category example_attested_action \<in> set categories \<and>
   float_gt_zero (quantity example_attested_action) \<and>
   attested example_attested_action \<and>
   ImpactAction.proof_hash example_attested_action = Some (ascii ''00'')"
  by (simp add: example_attested_action_def example_action_def categories_def
      float_gt_zero_def float_is_nan_def ascii_def)

lemma example_body_encodable: "request_encodable example_body"
  by (simp add: request_encodable_def example_body_def salt_text_def no_surrogate_def int64_def)

section \<open>Injectivity of the canonical text\<close>











lemma ESCAPE_DCT_not_plain: "ESCAPE_DCT c = Some t \<Longrightarrow> \<not> plain c"
  by (auto simp: ESCAPE_DCT_def plain_def split: if_splits)



























lemma action_proof_hash_bytes:
  "action_proof_hash fr a s =
     (case canonical_bytes fr a s of Inl e \<Rightarrow> Inl e | Inr b \<Rightarrow> Inr (hexdigest (sha256 b)))"
  by (simp add: action_proof_hash_def canonical_bytes_def split: sum.splits)

lemma canonical_bytes_ascii:
  assumes "ascii_text (fr (quantity a))" and "encode_utf8 (salt_text s) = Inr sb"
  shows "canonical_bytes fr a s = Inr (map of_nat (content_text fr a) @ sb)"
  using assms encode_utf8_ascii [OF content_text_ascii [of fr a, OF assms(1)]]
  by (simp add: canonical_bytes_def canonical_text encode_utf8_append)









lemma digest_range:
  "action_proof_hash example_float_repr a None \<in>
     (\<lambda>d. Inr (hexdigest d)) ` {d :: byte list. length d = 32}"
proof -
  have e: "encode_utf8 (salt_text None) = Inr []" by (simp add: salt_text_def)
  have "action_proof_hash example_float_repr a None =
      Inr (hexdigest (sha256 (map of_nat (content_text example_float_repr a))))"
    using canonical_bytes_ascii [where fr = example_float_repr and a = a,
        OF example_float_ascii e]
    by (simp add: action_proof_hash_bytes)
  then show ?thesis by (simp add: sha256_length)
qed

lemma card_digests: "finite {d :: byte list. length d = 32} \<and>
  card {d :: byte list. length d = 32} = 2 ^ 256"
  using card_lists_length_eq [of "UNIV :: byte set" 32]
    finite_lists_length_eq [of "UNIV :: byte set" 32]
  by (simp add: card_word)

lemma proof_hash_collision:
  "\<exists>x y. x \<noteq> y \<and> length x = 33 \<and> length y = 33 \<and> scalar_text x \<and> scalar_text y \<and>
     action_proof_hash example_float_repr (example_action\<lparr>actor := x\<rparr>) None =
     action_proof_hash example_float_repr (example_action\<lparr>actor := y\<rparr>) None"
proof -
  let ?f = "\<lambda>x. action_proof_hash example_float_repr (example_action\<lparr>actor := x\<rparr>) None"
  let ?D = "(\<lambda>d. Inr (hexdigest d) :: error + pystr) ` {d :: byte list. length d = 32}"
  let ?A = "{x. set x \<subseteq> {..< (256::nat)} \<and> length x = 33}"
  have A: "card ?A = 256 ^ 33"
    using card_lists_length_eq [of "{..< (256::nat)}" 33] by simp
  have "?f ` ?A \<subseteq> ?D" using digest_range by blast
  moreover have "finite ?D" using card_digests by simp
  ultimately have "card (?f ` ?A) \<le> card ?D" by (rule card_mono [rotated])
  also have "\<dots> \<le> card {d :: byte list. length d = 32}"
    using card_digests by (intro card_image_le) simp
  also have "\<dots> < card ?A" using card_digests A by simp
  finally have "\<not> inj_on ?f ?A" by (rule pigeonhole)
  then obtain x y where "x \<in> ?A" "y \<in> ?A" "x \<noteq> y" "?f x = ?f y"
    unfolding inj_on_def by blast
  moreover have "scalar_text z" if "z \<in> ?A" for z
    using that by (auto simp: scalar_text_def scalar_def list_all_iff)
  ultimately show ?thesis by blast
qed










section \<open>Claims about the derivation\<close>

text \<open>
  C1, as amended. The float text being ASCII (as \<open>float.__repr__\<close> writes it), for every
  action and optional salt: when UTF-8 can encode the salt (the empty text when it is
  absent), \<open>derive\<close> returns the pair of section 4.2, computed from the bytes of the
  canonical content text followed by the bytes of the salt; when the salt holds a lone
  surrogate, \<open>derive\<close> raises \<open>UnicodeEncodeError\<close> and returns no pair.
\<close>

theorem derive_returns:
  assumes "ascii_text (float_repr (quantity a))"
  shows "derive float_repr a s =
     (case encode_utf8 (salt_text s) of
        Inl e \<Rightarrow> Inl UnicodeEncodeError
      | Inr salt_bytes \<Rightarrow>
          Inr (derive_spec (map of_nat (content_text float_repr a)) salt_bytes))"
  using assms by (rule derive_total)

theorem derive_returns_witness:
  "ascii_text (example_float_repr (quantity example_action)) \<and>
   derive example_float_repr example_action (Some (ascii ''pepper'')) =
     Inr (derive_spec (map of_nat (content_text example_float_repr example_action))
            (map of_nat (ascii ''pepper'')))"
proof -
  have h: "ascii_text (example_float_repr (quantity example_action))"
    by (simp add: example_float_repr_def ascii_text_def ascii_def)
  have "ascii_text (ascii ''pepper'')"
    by (simp add: ascii_text_def ascii_def)
  then have e: "encode_utf8 (salt_text (Some (ascii ''pepper''))) = Inr (map of_nat (ascii ''pepper''))"
    by (simp add: salt_text_def encode_utf8_ascii)
  show ?thesis
    using h derive_returns [of example_float_repr example_action "Some (ascii ''pepper'')", OF h]
    by (simp add: e)
qed

text \<open>
  The claim as stated fails for a salt that is a lone surrogate, a \<open>str\<close> Python
  accepts: encoding the canonical text raises.
\<close>

theorem derive_surrogate_salt_raises:
  "derive example_float_repr example_action (Some [0xD800]) = Inl UnicodeEncodeError"
proof -
  have h: "ascii_text (example_float_repr (quantity example_action))"
    by (simp add: example_float_repr_def ascii_text_def ascii_def)
  have e: "encode_utf8 (salt_text (Some [0xD800])) = Inl UnicodeEncodeError"
    by (simp add: salt_text_def utf8_char_def)
  show ?thesis by (simp add: derive_total [of example_float_repr example_action, OF h] e)
qed

text \<open>
  C6. Whatever the action and the salt, a derived \<open>proof_hash\<close> is 64 lowercase
  hexadecimal characters and a derived \<open>tx_id\<close> is 32 of them, the first 32 characters
  of the hexadecimal digest of \<open>proof_hash + "|tx"\<close>; the derivation yields no pair
  only when the canonical text cannot be encoded.
\<close>

theorem derive_lengths:
  "case derive float_repr a s of
     Inl e \<Rightarrow> e = UnicodeEncodeError \<and>
       encode_utf8 (content_text float_repr a @ salt_text s) = Inl UnicodeEncodeError
   | Inr (ph, tx) \<Rightarrow>
       length ph = 64 \<and> list_all lower_hex ph \<and> length tx = 32 \<and> list_all lower_hex tx \<and>
       tx = take 32 (hexdigest (sha256 (map of_nat (ph @ ascii ''|tx''))))"
  by (rule derive_format)

text \<open>
  C7. The canonical encoding of an action is its eight content fields in the order of
  their names, each key followed by \<open>:\<close> and the members separated by \<open>,\<close>, with
  nothing after the last member but the closing brace; the text depends on nothing but
  those fields.
\<close>

theorem canonical_encoding:
  \<open>json_dumps float_repr True (ascii '','', ascii '':'')
     (model_dump a
        (map ascii [''attested'', ''proof_hash'', ''tx_id'', ''created_at'', ''updated_at''])) =
   Inr (ascii ''{"actor":'' @ encode_basestring_ascii (actor a) @
        ascii '',"category":'' @ encode_basestring_ascii (category a) @
        ascii '',"description":'' @ opt_text (description a) @
        ascii '',"evidence_url":'' @ opt_text (evidence_url a) @
        ascii '',"location":'' @ opt_text (location a) @
        ascii '',"quantity":'' @ float_repr (quantity a) @
        ascii '',"title":'' @ encode_basestring_ascii (title a) @
        ascii '',"unit":'' @ encode_basestring_ascii (unit a) @
        ascii ''}'') \<and>
   map fst (sort_key fst (model_dump a
        (map ascii [''attested'', ''proof_hash'', ''tx_id'', ''created_at'', ''updated_at'']))) =
     map ascii [''actor'', ''category'', ''description'', ''evidence_url'', ''location'',
                ''quantity'', ''title'', ''unit''] \<and>
   sorted_wrt (<) (map ascii [''actor'', ''category'', ''description'', ''evidence_url'',
                ''location'', ''quantity'', ''title'', ''unit'']) \<and>
   list_all (\<lambda>c. \<not> isspace c) (ascii '','' @ ascii '':'')\<close>
proof -
  have 1: "sorted_wrt (<) (map ascii [''actor'', ''category'', ''description'', ''evidence_url'',
                ''location'', ''quantity'', ''title'', ''unit''])"
    by (simp add: ascii_def)
  have 2: "list_all (\<lambda>c. \<not> isspace c) (ascii '','' @ ascii '':'')"
    by (simp add: ascii_def isspace_def)
  have 3: "map fst (sort_key fst (model_dump a
        (map ascii [''attested'', ''proof_hash'', ''tx_id'', ''created_at'', ''updated_at'']))) =
     map ascii [''actor'', ''category'', ''description'', ''evidence_url'', ''location'',
                ''quantity'', ''title'', ''unit'']"
    unfolding model_dump_content sort_content by simp
  show ?thesis
    unfolding json_content content_text_def using 1 2 3 by (intro conjI) simp_all
qed

text \<open>
  C5. Two actions with equal values of the eight content fields give, with the same
  salt, the same result of \<open>derive\<close>, whatever their other fields are; and the
  payload dictionary gives the same canonical text in whatever order its items were
  inserted.
\<close>

theorem derive_deterministic:
  assumes "same_content a b"
  shows "derive float_repr a s = derive float_repr b s \<and>
         (mset payload = mset (model_dump a
            (map ascii [''attested'', ''proof_hash'', ''tx_id'', ''created_at'', ''updated_at'']))
          \<longrightarrow> json_dumps float_repr True (ascii '','', ascii '':'') payload =
               json_dumps float_repr True (ascii '','', ascii '':'') (model_dump b
                 (map ascii [''attested'', ''proof_hash'', ''tx_id'', ''created_at'',
                   ''updated_at''])))"
proof (intro conjI impI)
  show "derive float_repr a s = derive float_repr b s"
    using assms by (rule derive_cong)
next
  let ?excl = "map ascii [''attested'', ''proof_hash'', ''tx_id'', ''created_at'', ''updated_at'']"
  assume "mset payload = mset (model_dump a ?excl)"
  then have "json_dumps float_repr True (ascii '','', ascii '':'') payload =
      json_dumps float_repr True (ascii '','', ascii '':'') (model_dump a ?excl)"
    by (rule json_dumps_order)
  also have "\<dots> = json_dumps float_repr True (ascii '','', ascii '':'') (model_dump b ?excl)"
    unfolding json_content using content_text_cong [OF assms] by simp
  finally show "json_dumps float_repr True (ascii '','', ascii '':'') payload =
      json_dumps float_repr True (ascii '','', ascii '':'') (model_dump b ?excl)" .
qed

theorem derive_deterministic_witness:
  "same_content example_attested_action example_action \<and>
   example_attested_action \<noteq> example_action \<and>
   derive example_float_repr example_attested_action (Some (ascii ''pepper'')) =
     derive example_float_repr example_action (Some (ascii ''pepper'')) \<and>
   json_dumps example_float_repr True (ascii '','', ascii '':'')
     (rev (model_dump example_attested_action
        (map ascii [''attested'', ''proof_hash'', ''tx_id'', ''created_at'', ''updated_at'']))) =
   json_dumps example_float_repr True (ascii '','', ascii '':'')
     (model_dump example_action
        (map ascii [''attested'', ''proof_hash'', ''tx_id'', ''created_at'', ''updated_at'']))"
proof -
  have same: "same_content example_attested_action example_action"
    by (simp add: same_content_def example_attested_action_def)
  have ne: "example_attested_action \<noteq> example_action"
    by (simp add: example_attested_action_def example_action_def)
  show ?thesis
    using same ne
      derive_deterministic [OF same, of example_float_repr "Some (ascii ''pepper'')"
        "rev (model_dump example_attested_action
          (map ascii [''attested'', ''proof_hash'', ''tx_id'', ''created_at'', ''updated_at'']))"]
    by simp
qed







section \<open>Claims about attestation\<close>

text \<open>
  C2. When \<open>attest\<close> succeeds with the pair \<open>(ph, tx)\<close>, the database was configured and
  held the action; the pair is what \<open>derive\<close> gives for the stored action and the salt of
  the request, and still gives for the action as it is stored afterwards; afterwards
  the stored action has \<open>attested = True\<close>, \<open>proof_hash = ph\<close> and \<open>tx_id = tx\<close>, and the
  collection of proofs ends with a new document holding the same values.
\<close>

theorem attest_postcondition:
  assumes "attest_action float_repr now db aid body = (Inr (ph, tx), db')"
  shows "\<exists>d i r.
    db = Some d \<and> stored_action d aid = Some (i, r) \<and>
    derive float_repr r (CreateProofRequest.salt body) = Inr (ph, tx) \<and>
    db' = Some (d\<lparr>coll_proof := coll_proof d @ [new_proof aid body now ph tx],
                   coll_impactaction :=
                     update_one (coll_impactaction d) i (mark_attested now ph tx)\<rparr>) \<and>
    stored_action (the db') aid = Some (i, mark_attested now ph tx r) \<and>
    attested (mark_attested now ph tx r) \<and>
    ImpactAction.proof_hash (mark_attested now ph tx r) = Some ph \<and>
    ImpactAction.tx_id (mark_attested now ph tx r) = Some tx \<and>
    derive float_repr (mark_attested now ph tx r) (CreateProofRequest.salt body) = Inr (ph, tx) \<and>
    proof_doc.proof_hash (last (coll_proof (the db'))) = ph \<and>
    proof_doc.tx_id (last (coll_proof (the db'))) = tx \<and>
    proof_doc.action_id (last (coll_proof (the db'))) = aid"
proof -
  obtain d where db: "db = Some d"
    using assms by (cases db) (simp_all add: attest_action_def)
  note eq = assms [unfolded db attest_action_eq]
  obtain i r where st: "stored_action d aid = Some (i, r)"
    using eq by (cases "stored_action d aid") auto
  obtain action where init: "ImpactAction_init (r\<lparr>ImpactAction.created_at := None,
      ImpactAction.updated_at := None\<rparr>) = Inr action"
    using eq st by (auto split: sum.splits)
  have der: "derive float_repr r (CreateProofRequest.salt body) = Inr (ph, tx)"
    using eq st init by (auto split: sum.splits option.splits)
  have enc: "bson_encode (new_proof aid body now ph tx) = None"
    using eq st init der by (auto split: option.splits)
  have db': "db' = Some (d\<lparr>coll_proof := coll_proof d @ [new_proof aid body now ph tx],
                   coll_impactaction :=
                     update_one (coll_impactaction d) i (mark_attested now ph tx)\<rparr>)"
    using eq st init der enc by auto
  obtain j where oid: "ObjectId aid = Inr j" and f: "find_one (coll_impactaction d) j = Some (i, r)"
    using st by (auto simp: stored_action_def split: sum.splits)
  have ji: "i = j" using f by (rule find_one_id)
  have st': "stored_action (the db') aid = Some (i, mark_attested now ph tx r)"
    using oid f ji by (simp add: db' stored_action_def find_one_update_one)
  have der': "derive float_repr (mark_attested now ph tx r) (CreateProofRequest.salt body)
      = Inr (ph, tx)"
    using der derive_cong [OF same_content_mark] by simp
  show ?thesis
    using db st der db' st' der'
    by (simp add: mark_attested_def new_proof_def)
qed

theorem attest_postcondition_witness:
  "\<exists>ph tx db'.
     attest_action example_float_repr 7 (Some example_db) example_id example_body =
       (Inr (ph, tx), db') \<and>
     stored_action (the db') example_id = Some (example_oid, mark_attested 7 ph tx example_action) \<and>
     proof_doc.proof_hash (last (coll_proof (the db'))) = ph"
proof -
  obtain ph tx where a: "attest_action example_float_repr 7 (Some example_db) example_id
      example_body = (Inr (ph, tx),
        Some (example_db\<lparr>coll_proof := coll_proof example_db @
                [new_proof example_id example_body 7 ph tx],
              coll_impactaction := update_one (coll_impactaction example_db) example_oid
                (mark_attested 7 ph tx)\<rparr>))"
    using attest_action_succeeds [where fr = example_float_repr and r = example_action
        and now = 7, OF example_stored example_valid example_float_ascii
        example_body_encodable]
    by blast
  from attest_postcondition [OF a] example_stored
  have "stored_action (the (Some (example_db\<lparr>coll_proof := coll_proof example_db @
                [new_proof example_id example_body 7 ph tx],
              coll_impactaction := update_one (coll_impactaction example_db) example_oid
                (mark_attested 7 ph tx)\<rparr>))) example_id =
          Some (example_oid, mark_attested 7 ph tx example_action)
    \<and> proof_doc.proof_hash (last (coll_proof (the (Some (example_db\<lparr>coll_proof :=
          coll_proof example_db @ [new_proof example_id example_body 7 ph tx],
              coll_impactaction := update_one (coll_impactaction example_db) example_oid
                (mark_attested 7 ph tx)\<rparr>))))) = ph"
    by auto
  with a show ?thesis by blast
qed


text \<open>
  C3. With a configured database, an \<open>action_id\<close> under which the lookup finds no action
  makes \<open>attest\<close> fail with the 404 \<open>Action not found\<close> and leave the database as it
  was: no proof is inserted and no action is changed.
\<close>

theorem attest_not_found:
  assumes "stored_action d aid = None"
  shows "attest_action float_repr now (Some d) aid body =
     (Inl (HTTPException 404 (ascii ''Action not found'')), Some d)"
  using assms by (simp add: attest_action_eq)

theorem attest_not_found_witness:
  "stored_action example_db (ascii ''ffffffffffffffffffffffff'') = None \<and>
   attest_action example_float_repr 7 (Some example_db) (ascii ''ffffffffffffffffffffffff'')
       example_body =
     (Inl (HTTPException 404 (ascii ''Action not found'')), Some example_db)"
proof -
  have h: "stored_action example_db (ascii ''ffffffffffffffffffffffff'') = None"
    by (simp add: stored_action_def absent_ObjectId example_db_def example_oid_def)
  show ?thesis using h attest_not_found [OF h] by simp
qed

text \<open>
  C10. An \<open>action_id\<close> that \<open>ObjectId\<close> rejects gives the same 404 \<open>Action not found\<close>,
  with the database unchanged, as a well-formed id under which nothing is stored: the
  two calls have the same outcome, and no parse or validation error surfaces.
\<close>

theorem attest_malformed_id:
  assumes "ObjectId aid = Inl e"
    and "ObjectId aid' = Inr i" and "find_one (coll_impactaction d) i = None"
  shows "attest_action float_repr now (Some d) aid body =
           (Inl (HTTPException 404 (ascii ''Action not found'')), Some d) \<and>
         attest_action float_repr now (Some d) aid body =
           attest_action float_repr now (Some d) aid' body"
  using assms by (simp add: attest_action_eq stored_action_def)

theorem attest_malformed_id_witness:
  "ObjectId (ascii ''nonexistent-id'') = Inl InvalidId \<and>
   ObjectId (ascii ''ffffffffffffffffffffffff'') =
     Inr [0xFF, 0xFF, 0xFF, 0xFF, 0xFF, 0xFF, 0xFF, 0xFF, 0xFF, 0xFF, 0xFF, 0xFF] \<and>
   find_one (coll_impactaction example_db)
     [0xFF, 0xFF, 0xFF, 0xFF, 0xFF, 0xFF, 0xFF, 0xFF, 0xFF, 0xFF, 0xFF, 0xFF] = None \<and>
   attest_action example_float_repr 7 (Some example_db) (ascii ''nonexistent-id'') example_body =
     (Inl (HTTPException 404 (ascii ''Action not found'')), Some example_db) \<and>
   attest_action example_float_repr 7 (Some example_db) (ascii ''nonexistent-id'') example_body =
     attest_action example_float_repr 7 (Some example_db) (ascii ''ffffffffffffffffffffffff'')
       example_body"
proof -
  have f: "find_one (coll_impactaction example_db)
     [0xFF, 0xFF, 0xFF, 0xFF, 0xFF, 0xFF, 0xFF, 0xFF, 0xFF, 0xFF, 0xFF, 0xFF] = None"
    by (simp add: example_db_def example_oid_def)
  show ?thesis
    using malformed_ObjectId absent_ObjectId f
      attest_malformed_id [OF malformed_ObjectId absent_ObjectId f,
        of example_float_repr 7 example_body]
    by blast
qed

text \<open>
  C9, as amended. The handler never reads the \<open>attested\<close> flag, but attesting an
  action that is already attested does not always succeed. For a stored action that
  passes the model's validation (a category of the schema, a quantity above zero) and
  whose quantity is written in ASCII: when the request can be encoded (no surrogate in
  salt, signer address and signature, the chain id within 64 bits) the call succeeds
  with the pair \<open>derive\<close> gives, appends one proof document and overwrites the action's
  \<open>proof_hash\<close> and \<open>tx_id\<close> with the new pair; when it cannot, the call raises
  \<open>UnicodeEncodeError\<close> or \<open>OverflowError\<close> and the database is as it was. No call of
  \<open>attest\<close> changes or removes a proof document that exists: the old collection is a
  prefix of the new one, which is longer only after a success.
\<close>

theorem reattest_encodable:
  assumes "stored_action d aid = Some (i, r)" and "attested r"
    and "category r \<in> set categories" and "float_gt_zero (quantity r)"
    and "ascii_text (float_repr (quantity r))"
  shows "(request_encodable body \<longrightarrow>
           (\<exists>ph tx d'. derive float_repr r (CreateProofRequest.salt body) = Inr (ph, tx) \<and>
              attest_action float_repr now (Some d) aid body = (Inr (ph, tx), Some d') \<and>
              coll_proof d' = coll_proof d @ [new_proof aid body now ph tx] \<and>
              stored_action d' aid = Some (i, mark_attested now ph tx r) \<and>
              ImpactAction.proof_hash (mark_attested now ph tx r) = Some ph \<and>
              ImpactAction.tx_id (mark_attested now ph tx r) = Some tx \<and>
              attested (mark_attested now ph tx r))) \<and>
         (\<not> request_encodable body \<longrightarrow>
           (\<exists>e. attest_action float_repr now (Some d) aid body = (Inl e, Some d) \<and>
              (e = UnicodeEncodeError \<or> e = OverflowError))) \<and>
         (attest_action float_repr now2 (Some d) aid2 body2 = (res, Some d2) \<longrightarrow>
           take (length (coll_proof d)) (coll_proof d2) = coll_proof d \<and>
           (case res of Inl e \<Rightarrow> coll_proof d2 = coll_proof d
            | Inr (ph2, tx2) \<Rightarrow>
                coll_proof d2 = coll_proof d @ [new_proof aid2 body2 now2 ph2 tx2]))"
proof (intro conjI impI)
  have init: "ImpactAction_init (r\<lparr>ImpactAction.created_at := None,
      ImpactAction.updated_at := None\<rparr>) =
      Inr (r\<lparr>ImpactAction.created_at := None, ImpactAction.updated_at := None\<rparr>)"
    using assms(3,4) by (simp add: ImpactAction_init_def)
  obtain j where oid: "ObjectId aid = Inr j" and f: "find_one (coll_impactaction d) j = Some (i, r)"
    using assms(1) by (auto simp: stored_action_def split: sum.splits)
  have ji: "i = j" using f by (rule find_one_id)
  {
    assume "request_encodable body"
    then obtain ph tx where der: "derive float_repr r (CreateProofRequest.salt body) = Inr (ph, tx)"
      and a: "attest_action float_repr now (Some d) aid body =
        (Inr (ph, tx),
         Some (d\<lparr>coll_proof := coll_proof d @ [new_proof aid body now ph tx],
                 coll_impactaction :=
                   update_one (coll_impactaction d) i (mark_attested now ph tx)\<rparr>))"
      using attest_action_succeeds [where fr = float_repr and r = r and body = body
          and now = now, OF assms(1) init assms(5)]
      by blast
    let ?d' = "d\<lparr>coll_proof := coll_proof d @ [new_proof aid body now ph tx],
                  coll_impactaction :=
                    update_one (coll_impactaction d) i (mark_attested now ph tx)\<rparr>"
    have st: "stored_action ?d' aid = Some (i, mark_attested now ph tx r)"
      using oid f ji by (simp add: stored_action_def find_one_update_one)
    have "derive float_repr r (CreateProofRequest.salt body) = Inr (ph, tx) \<and>
          attest_action float_repr now (Some d) aid body = (Inr (ph, tx), Some ?d') \<and>
          coll_proof ?d' = coll_proof d @ [new_proof aid body now ph tx] \<and>
          stored_action ?d' aid = Some (i, mark_attested now ph tx r) \<and>
          ImpactAction.proof_hash (mark_attested now ph tx r) = Some ph \<and>
          ImpactAction.tx_id (mark_attested now ph tx r) = Some tx \<and>
          attested (mark_attested now ph tx r)"
      using der a st by (simp add: mark_attested_def)
    then show "\<exists>ph tx d'. derive float_repr r (CreateProofRequest.salt body) = Inr (ph, tx) \<and>
              attest_action float_repr now (Some d) aid body = (Inr (ph, tx), Some d') \<and>
              coll_proof d' = coll_proof d @ [new_proof aid body now ph tx] \<and>
              stored_action d' aid = Some (i, mark_attested now ph tx r) \<and>
              ImpactAction.proof_hash (mark_attested now ph tx r) = Some ph \<and>
              ImpactAction.tx_id (mark_attested now ph tx r) = Some tx \<and>
              attested (mark_attested now ph tx r)"
      by blast
  }
  {
    assume "\<not> request_encodable body"
    then show "\<exists>e. attest_action float_repr now (Some d) aid body = (Inl e, Some d) \<and>
              (e = UnicodeEncodeError \<or> e = OverflowError)"
      by (rule attest_action_raises [where fr = float_repr and r = r,
            OF assms(1) init assms(5)])
  }
  {
    assume "attest_action float_repr now2 (Some d) aid2 body2 = (res, Some d2)"
    then have *: "take (length (coll_proof d)) (coll_proof d2) = coll_proof d \<and>
           (case res of Inl e \<Rightarrow> coll_proof d2 = coll_proof d
            | Inr (ph2, tx2) \<Rightarrow>
                coll_proof d2 = coll_proof d @ [new_proof aid2 body2 now2 ph2 tx2])"
      by (rule attest_proofs_append_only)
    from * show "take (length (coll_proof d)) (coll_proof d2) = coll_proof d" by simp
    from * show "case res of Inl e \<Rightarrow> coll_proof d2 = coll_proof d
            | Inr (ph2, tx2) \<Rightarrow>
                coll_proof d2 = coll_proof d @ [new_proof aid2 body2 now2 ph2 tx2]" by simp
  }
qed

theorem reattest_encodable_witness:
  "\<exists>ph tx d'.
     stored_action example_attested_db example_id = Some (example_oid, example_attested_action) \<and>
     attested example_attested_action \<and>
     ImpactAction.proof_hash example_attested_action = Some (ascii ''00'') \<and>
     request_encodable example_body \<and>
     attest_action example_float_repr 7 (Some example_attested_db) example_id example_body =
       (Inr (ph, tx), Some d') \<and>
     length (coll_proof d') = 2 \<and>
     stored_action d' example_id = Some (example_oid, mark_attested 7 ph tx example_attested_action) \<and>
     ImpactAction.proof_hash (mark_attested 7 ph tx example_attested_action) = Some ph"
proof -
  note v = example_attested_valid
  from reattest_encodable [where float_repr = example_float_repr
      and r = example_attested_action and body = example_body and now = 7,
      OF example_attested_stored v [THEN conjunct2, THEN conjunct2, THEN conjunct1]
      v [THEN conjunct1] v [THEN conjunct2, THEN conjunct1] example_float_ascii]
    example_body_encodable
  obtain ph tx d' where "attest_action example_float_repr 7 (Some example_attested_db) example_id
        example_body = (Inr (ph, tx), Some d')"
    and "coll_proof d' = coll_proof example_attested_db @ [new_proof example_id example_body 7 ph tx]"
    and "stored_action d' example_id = Some (example_oid, mark_attested 7 ph tx example_attested_action)"
    and "ImpactAction.proof_hash (mark_attested 7 ph tx example_attested_action) = Some ph"
    by blast
  then show ?thesis
    using example_attested_stored v example_body_encodable
    by (auto simp: example_attested_db_def)
qed

text \<open>
  The claim as the specification words it, that attesting an attested action succeeds,
  fails on the attested example: with a surrogate in the salt the derivation raises,
  with a surrogate in the signature or a chain id of \<open>2 ^ 63\<close> the insertion of the
  proof document raises; each time nothing is written.
\<close>

theorem reattest_raises:
  "stored_action example_attested_db example_id = Some (example_oid, example_attested_action) \<and>
   attested example_attested_action \<and>
   attest_action example_float_repr 7 (Some example_attested_db) example_id
       (example_body\<lparr>salt := Some [0xD800]\<rparr>) =
     (Inl UnicodeEncodeError, Some example_attested_db) \<and>
   attest_action example_float_repr 7 (Some example_attested_db) example_id
       (example_body\<lparr>CreateProofRequest.signature := Some [0xDC00]\<rparr>) =
     (Inl UnicodeEncodeError, Some example_attested_db) \<and>
   attest_action example_float_repr 7 (Some example_attested_db) example_id
       (example_body\<lparr>CreateProofRequest.chain_id := Some (2 ^ 63)\<rparr>) =
     (Inl OverflowError, Some example_attested_db)"
proof -
  note v = example_attested_valid
  have init: "ImpactAction_init (example_attested_action\<lparr>ImpactAction.created_at := None,
      ImpactAction.updated_at := None\<rparr>) =
      Inr (example_attested_action\<lparr>ImpactAction.created_at := None,
        ImpactAction.updated_at := None\<rparr>)"
    using v by (simp add: ImpactAction_init_def)
  have fa: "ascii_text (example_float_repr (quantity example_attested_action))"
    by (rule example_float_ascii)
  have 1: "attest_action example_float_repr 7 (Some example_attested_db) example_id
       (example_body\<lparr>salt := Some [0xD800]\<rparr>) =
     (Inl UnicodeEncodeError, Some example_attested_db)"
    using example_attested_stored init
    by (simp add: attest_action_eq derive_total [of example_float_repr example_attested_action,
          OF fa] salt_text_def utf8_char_def)
  obtain ph tx where der: "derive example_float_repr example_attested_action None = Inr (ph, tx)"
    by (simp add: derive_total [of example_float_repr example_attested_action, OF fa]
        salt_text_def derive_spec_def Let_def)
  have 2: "attest_action example_float_repr 7 (Some example_attested_db) example_id
       (example_body\<lparr>CreateProofRequest.signature := Some [0xDC00]\<rparr>) =
     (Inl UnicodeEncodeError, Some example_attested_db)"
    using attest_action_stored [where fr = example_float_repr and now = 7
        and body = "example_body\<lparr>CreateProofRequest.signature := Some [0xDC00]\<rparr>"
        and ph = ph and tx = tx, OF example_attested_stored init] der
    by (simp add: example_body_def bson_optional_def bson_str_def bson_int_def utf8_char_def)
  have 3: "attest_action example_float_repr 7 (Some example_attested_db) example_id
       (example_body\<lparr>CreateProofRequest.chain_id := Some (2 ^ 63)\<rparr>) =
     (Inl OverflowError, Some example_attested_db)"
    using attest_action_stored [where fr = example_float_repr and now = 7
        and body = "example_body\<lparr>CreateProofRequest.chain_id := Some (2 ^ 63)\<rparr>"
        and ph = ph and tx = tx, OF example_attested_stored init] der
    by (simp add: example_body_def bson_optional_def bson_str_def bson_int_def)
  show ?thesis using example_attested_stored v 1 2 3 by blast
qed

end
